theory Spec2Isabelle
  imports Complex_Main "HOL-Library.Log_Nat"
begin

section \<open>Conventions of the embedding\<close>

text \<open>
  The client is TypeScript. A finite JavaScript \<open>number\<close> that carries a measurement
  (a price, a latency, a percentage) is the \<open>real\<close> that the IEEE 754 double denotes,
  and every arithmetic operation of the source on such numbers is the exact operation
  followed by the rounding \<open>binary64\<close> to the nearest double; a decimal literal \<open>c\<close>
  of the source that is not a double itself is \<open>binary64 c\<close>. Counters and indices are
  \<open>int\<close> or \<open>nat\<close>. A string is a \<open>string\<close> of 8-bit characters. Reads of the clock
  (\<open>Date.now()\<close>, \<open>new Date().toISOString()\<close>) and draws of \<open>Math.random()\<close> are
  explicit arguments, module-level variables and React references are fields of an explicit
  state that each function returns updated.
\<close>

subsection \<open>Array.prototype.slice with a negative start\<close>

text \<open>
  \<open>xs.slice(-k)\<close> starts at \<open>max (length - k) 0\<close> and runs to the end of the array.
\<close>

definition slice_from_end :: "nat \<Rightarrow> 'a list \<Rightarrow> 'a list" where
  "slice_from_end k xs = (if length xs \<le> k then xs else drop (length xs - k) xs)"

subsection \<open>Numbers\<close>

text \<open>
  \<open>round_even\<close> is the nearest integer, the even one on a tie. \<open>round53\<close> rounds a
  non-negative real to the nearest real that is an integer with at most 53 binary digits
  times a power of two, and never goes below the integers: with \<open>k\<close> the number of
  binary digits of the integer part, the unit is \<open>2^(k - 53)\<close>, or 1 when \<open>k \<le> 53\<close>.
  A double is an integer multiple of \<open>2^-1074\<close> with at most 53 significant binary
  digits, so \<open>binary64\<close>, the rounding to the nearest double with ties to even, is
  \<open>round53\<close> at the scale \<open>2^1074\<close>, with the sign put back. Numbers too small for
  the normal range round to the multiples of \<open>2^-1074\<close> (gradual underflow); the result
  for a number beyond the largest double is at least \<open>2^1024\<close>, which \<open>to_number\<close>
  turns into an infinity. The two zeros of the doubles are one number here.
\<close>

definition round_even :: "real \<Rightarrow> int" where
  "round_even x = (let f = \<lfloor>x\<rfloor>; d = x - of_int f
                   in if d < 1 / 2 then f else if 1 / 2 < d then f + 1
                      else if even f then f else f + 1)"

definition round53 :: "real \<Rightarrow> real" where
  "round53 y = (let k = bitlen \<lfloor>y\<rfloor>;
                   u = (if k \<le> 53 then 1 else 2 ^ nat (k - 53))
               in of_int (round_even (y / u)) * u)"

definition binary64 :: "real \<Rightarrow> real" where
  "binary64 x = sgn x * round53 (\<bar>x\<bar> * 2 ^ 1074) / 2 ^ 1074"

text \<open>
  A value of the source where a number is expected: a finite double, an infinity,
  \<open>NaN\<close>, or \<open>undefined\<close> (what an index outside an array reads).
\<close>

datatype jsvalue = Number real | PosInfinity | NegInfinity | NaN | Undefined

definition to_number :: "real \<Rightarrow> jsvalue" where
  "to_number x = (let v = binary64 x
                  in if 2 ^ 1024 \<le> v then PosInfinity
                     else if v \<le> - (2 ^ 1024) then NegInfinity
                     else Number v)"

text \<open>
  The operators \<open>+\<close> and \<open>/\<close> on such values; \<open>undefined\<close> converts to \<open>NaN\<close>.
  A zero divisor is the positive zero (an array length).
\<close>

fun js_add :: "jsvalue \<Rightarrow> jsvalue \<Rightarrow> jsvalue" where
  "js_add (Number a) (Number b) = to_number (a + b)"
| "js_add PosInfinity (Number b) = PosInfinity"
| "js_add (Number a) PosInfinity = PosInfinity"
| "js_add PosInfinity PosInfinity = PosInfinity"
| "js_add NegInfinity (Number b) = NegInfinity"
| "js_add (Number a) NegInfinity = NegInfinity"
| "js_add NegInfinity NegInfinity = NegInfinity"
| "js_add _ _ = NaN"

fun js_div :: "jsvalue \<Rightarrow> jsvalue \<Rightarrow> jsvalue" where
  "js_div (Number a) (Number b) =
     (if b = 0 then (if a = 0 then NaN else if 0 < a then PosInfinity else NegInfinity)
      else to_number (a / b))"
| "js_div PosInfinity (Number b) = (if 0 \<le> b then PosInfinity else NegInfinity)"
| "js_div NegInfinity (Number b) = (if 0 \<le> b then NegInfinity else PosInfinity)"
| "js_div (Number a) PosInfinity = Number 0"
| "js_div (Number a) NegInfinity = Number 0"
| "js_div _ _ = NaN"

subsection \<open>Number.prototype.toFixed and the printing of numbers\<close>

text \<open>
  For \<open>|x| < 10^21\<close>, \<open>x.toFixed(d)\<close> takes the integer \<open>n\<close> for which \<open>n / 10^d\<close> is
  closest to \<open>|x|\<close>, the larger one on a tie, prints it with \<open>d\<close> digits after the
  point, and puts a minus sign in front when \<open>x < 0\<close>. \<open>fixed_units\<close> is that integer.
  From \<open>10^21\<close> on, \<open>toFixed\<close> and the conversion of a number to a string print the
  exponent notation of \<open>Number.prototype.toString\<close>; that built-in function is the
  argument \<open>exponent_form\<close> of the printing functions.
\<close>

definition fixed_units :: "nat \<Rightarrow> real \<Rightarrow> nat" where
  "fixed_units d x = nat \<lfloor>\<bar>x\<bar> * 10 ^ d + 1 / 2\<rfloor>"

text \<open>
  \<open>parseFloat(x.toFixed(d))\<close> for \<open>|x| < 10^21\<close>: the double nearest to the number that
  the printed digits denote.
\<close>

definition toFixed_number :: "nat \<Rightarrow> real \<Rightarrow> real" where
  "toFixed_number d x = binary64 (if x < 0 then - (real (fixed_units d (- x)) / 10 ^ d)
                                  else real (fixed_units d x) / 10 ^ d)"

definition digit_char :: "nat \<Rightarrow> char" where
  "digit_char n = char_of (48 + n)"

fun show_nat :: "nat \<Rightarrow> string" where
  "show_nat n = (if n < 10 then [digit_char n] else show_nat (n div 10) @ [digit_char (n mod 10)])"

text \<open>The conversion of an integer-valued number to a string in a template literal.\<close>

definition show_int :: "(real \<Rightarrow> string) \<Rightarrow> int \<Rightarrow> string" where
  "show_int exponent_form i =
     (if i < 0 then ''-'' else [])
     @ (if 10 ^ 21 \<le> \<bar>i\<bar> then exponent_form (of_int \<bar>i\<bar>) else show_nat (nat \<bar>i\<bar>))"

definition pad_zeros :: "nat \<Rightarrow> string \<Rightarrow> string" where
  "pad_zeros d s = replicate (d - length s) (CHR ''0'') @ s"

definition toFixed :: "(real \<Rightarrow> string) \<Rightarrow> nat \<Rightarrow> real \<Rightarrow> string" where
  "toFixed exponent_form d x =
     (let n = fixed_units d x
      in (if x < 0 then ''-'' else [])
         @ (if 10 ^ 21 \<le> \<bar>x\<bar> then exponent_form \<bar>x\<bar>
            else show_nat (n div 10 ^ d)
                 @ (if d = 0 then [] else ''.'' @ pad_zeros d (show_nat (n mod 10 ^ d)))))"

subsection \<open>Array.prototype.join, String.prototype.toUpperCase, object properties\<close>

fun join :: "string \<Rightarrow> string list \<Rightarrow> string" where
  "join sep [] = []"
| "join sep [x] = x"
| "join sep (x # y # ys) = x @ sep @ join sep (y # ys)"

text \<open>Upper case of the ASCII letters, which is what ticker symbols are made of.\<close>

definition upper_char :: "char \<Rightarrow> char" where
  "upper_char c = (let n = (of_char c :: nat) in if 97 \<le> n \<and> n \<le> 122 then char_of (n - 32) else c)"

definition toUpperCase :: "string \<Rightarrow> string" where
  "toUpperCase s = map upper_char s"

text \<open>
  A \<open>Record<string, T>\<close> is an association list in insertion order with distinct keys.
  \<open>assign\<close> is the property write \<open>obj[k] = v\<close>, \<open>map_of\<close> the property read and
  \<open>map fst\<close> is \<open>Object.keys\<close>.
\<close>

fun assign :: "'k \<Rightarrow> 'v \<Rightarrow> ('k \<times> 'v) list \<Rightarrow> ('k \<times> 'v) list" where
  "assign k v [] = [(k, v)]"
| "assign k v ((k', v') # m) = (if k = k' then (k, v) # m else (k', v') # assign k v m)"

subsection \<open>Exceptions\<close>

text \<open>
  The exceptions of the model. \<open>TypeError\<close> is what a property access on \<open>null\<close> or
  \<open>undefined\<close> throws. \<open>InvalidArgument\<close> is the error kind that the specification
  names for an empty sample set; no path of the source raises it.
\<close>

datatype exception = TypeError | InvalidArgument

section \<open>The API client (lib/api.ts)\<close>

subsection \<open>Data\<close>

record PriceData =
  symbol :: string
  price :: real
  bid :: real
  ask :: real
  volume :: int
  timestamp :: string
  latency_ns :: int
  latency_us :: real
  source :: string

record CacheStats =
  cache_hits :: int
  cache_misses :: int
  total_requests :: int
  hit_rate_percent :: real
  avg_latency_us :: real

definition API_BASE_URL :: "bool \<Rightarrow> string" where
  "API_BASE_URL production =
     (if production then ''https://8000-i1glh2xemmtgdmn5i8m2x-acd71ebb.us2.manus.computer'' else ''/api'')"

subsection \<open>The fetch primitive\<close>

text \<open>
  A request is its URL and its abort signal: \<open>Some t\<close> is \<open>AbortSignal.timeout(t)\<close>,
  \<open>None\<close> is a call of \<open>fetch\<close> without a signal.
\<close>

record request =
  rq_url :: string
  rq_signal :: "nat option"

text \<open>
  What the network does with a request: it fails, it never answers, or the answer is
  complete after some milliseconds, with the \<open>ok\<close> flag of its status and its body parsed
  as JSON. The body is \<open>None\<close> when it is not JSON, so that \<open>response.json()\<close>
  throws, and for \<open>fetchAllPrices\<close> and \<open>fetchStats\<close> also when it is the JSON value
  \<open>null\<close>, on which the first property access throws.
\<close>

datatype 'b transport = NetworkError | NoAnswer | Answer nat bool "'b option"

datatype 'b settled = Rejected | Fulfilled bool "'b option"

text \<open>
  The promise of \<open>fetch\<close>: \<open>None\<close> is a promise that never settles. A signal with a
  timeout rejects the promise when the answer is not there in time.
\<close>

fun fetch :: "request \<Rightarrow> 'b transport \<Rightarrow> 'b settled option" where
  "fetch rq NetworkError = Some Rejected"
| "fetch rq NoAnswer = (case rq_signal rq of None \<Rightarrow> None | Some t \<Rightarrow> Some Rejected)"
| "fetch rq (Answer d ok body) =
     (case rq_signal rq of
        None \<Rightarrow> Some (Fulfilled ok body)
      | Some t \<Rightarrow> if d < t then Some (Fulfilled ok body) else Some Rejected)"

subsection \<open>Fallback data\<close>

text \<open>The module variables \<open>fallbackDataCache\<close> and \<open>lastFallbackUpdate\<close>.\<close>

record fallback_state =
  fallbackDataCache :: "(string \<times> PriceData) list"
  lastFallbackUpdate :: int

definition initial_fallback_state :: fallback_state where
  "initial_fallback_state = \<lparr> fallbackDataCache = [], lastFallbackUpdate = 0 \<rparr>"

text \<open>
  What one call of \<open>generateFallbackPriceData\<close> reads from its environment: the four
  results of \<open>Math.random()\<close> in the order of the calls, each in the interval from 0
  (included) to 1 (excluded), and the clock as an ISO string.
\<close>

record gen_env =
  r_volatility :: real
  r_volume :: real
  r_latency_ns :: real
  r_latency_us :: real
  iso_now :: string

definition unit_draw :: "real \<Rightarrow> bool" where
  "unit_draw r = (0 \<le> r \<and> r < 1)"

definition basePrice :: "string \<Rightarrow> real option" where
  "basePrice = map_of
     [(''AAPL'', 181.5), (''MSFT'', 445.0), (''GOOGL'', 140.0), (''AMZN'', 196.0), (''TSLA'', 242.0)]"

definition base_of :: "string \<Rightarrow> real" where
  "base_of s = (case basePrice s of Some b \<Rightarrow> b | None \<Rightarrow> 150)"

definition generateFallbackPriceData :: "string \<Rightarrow> gen_env \<Rightarrow> PriceData" where
  "generateFallbackPriceData ticker e =
     (let base = base_of ticker;
          volatility = binary64 (binary64 (r_volatility e - 0.5) * 2);
          price = binary64 (base + volatility);
          spread = binary64 (price * binary64 0.001)
      in \<lparr> symbol = ticker,
           price = toFixed_number 2 price,
           bid = toFixed_number 2 (binary64 (price - spread)),
           ask = toFixed_number 2 (binary64 (price + spread)),
           volume = \<lfloor>binary64 (r_volume e * 10000000)\<rfloor>,
           timestamp = iso_now e,
           latency_ns = \<lfloor>binary64 (r_latency_ns e * 1000)\<rfloor> + 100,
           latency_us = toFixed_number 2 (binary64 (binary64 (r_latency_us e * binary64 0.8) + binary64 0.1)),
           source = ''fallback'' \<rparr>)"

definition symbols :: "string list" where
  "symbols = [''AAPL'', ''MSFT'', ''GOOGL'', ''AMZN'', ''TSLA'']"

text \<open>
  \<open>getFallbackData\<close>: \<open>now\<close> is \<open>Date.now()\<close>, \<open>env s\<close> is what the generation of the
  symbol \<open>s\<close> reads. The result is the returned mapping and the module state after the call.
\<close>

definition getFallbackData ::
  "bool \<Rightarrow> int \<Rightarrow> (string \<Rightarrow> gen_env) \<Rightarrow> fallback_state
     \<Rightarrow> (string \<times> PriceData) list \<times> fallback_state" where
  "getFallbackData forceRefresh now env st =
     (let cacheExpiry = 2000
      in if forceRefresh \<or> now - lastFallbackUpdate st > cacheExpiry
            \<or> length (map fst (fallbackDataCache st)) = 0
         then (let c = foldl (\<lambda>c s. assign s (generateFallbackPriceData s (env s)) c) [] symbols
               in (c, \<lparr> fallbackDataCache = c, lastFallbackUpdate = now \<rparr>))
         else (fallbackDataCache st, st))"

text \<open>
  The shape that the module state has whenever a function of the client is called: the
  cache is still empty, or it holds one synthesized quote for each of the five symbols.
\<close>

definition fallback_cache_ok :: "fallback_state \<Rightarrow> bool" where
  "fallback_cache_ok st =
     (fallbackDataCache st = []
      \<or> (map fst (fallbackDataCache st) = symbols
          \<and> list_all (\<lambda>p. source (snd p) = ''fallback'') (fallbackDataCache st)))"

subsection \<open>fetchPrice\<close>

definition fetchPrice_request :: "bool \<Rightarrow> string \<Rightarrow> request" where
  "fetchPrice_request production ticker =
     \<lparr> rq_url = API_BASE_URL production @ ''/price/'' @ toUpperCase ticker, rq_signal = Some 5000 \<rparr>"

text \<open>
  What \<open>fetchPrice\<close> can return: \<open>null\<close>, a quote, or any other JSON value that the
  server has sent with a success status (its text is kept).
\<close>

datatype price_json = JsonNull | JsonQuote PriceData | JsonOther string

definition fallback_quote ::
  "string \<Rightarrow> int \<Rightarrow> (string \<Rightarrow> gen_env) \<Rightarrow> fallback_state \<Rightarrow> price_json \<times> fallback_state" where
  "fallback_quote ticker now env st =
     (case getFallbackData False now env st of
        (m, st') \<Rightarrow>
          (case map_of m (toUpperCase ticker) of None \<Rightarrow> JsonNull | Some q \<Rightarrow> JsonQuote q, st'))"

text \<open>
  The result is \<open>None\<close> when the call never returns, otherwise the returned value and
  the module state. The body of a success answer is returned as \<open>response.json()\<close> gives
  it, whatever it is; a body that is not JSON makes \<open>response.json()\<close> throw.
\<close>

definition fetchPrice ::
  "bool \<Rightarrow> price_json transport \<Rightarrow> int \<Rightarrow> (string \<Rightarrow> gen_env) \<Rightarrow> string \<Rightarrow> fallback_state
     \<Rightarrow> (price_json \<times> fallback_state) option" where
  "fetchPrice production tr now env ticker st =
     (case fetch (fetchPrice_request production ticker) tr of
        None \<Rightarrow> None
      | Some Rejected \<Rightarrow> Some (fallback_quote ticker now env st)
      | Some (Fulfilled ok body) \<Rightarrow>
          if \<not> ok then Some (fallback_quote ticker now env st)
          else (case body of
                  None \<Rightarrow> Some (fallback_quote ticker now env st)
                | Some json \<Rightarrow> Some (json, st)))"

subsection \<open>fetchAllPrices\<close>

text \<open>
  The body of \<open>/prices\<close>: \<open>data.prices\<close> (\<open>None\<close> when the member is missing or
  \<open>null\<close>), whose entries are quotes (\<open>None\<close> for an entry that is \<open>null\<close>), and
  \<open>data.latency_us\<close>.
\<close>

record prices_payload =
  pp_prices :: "(string \<times> PriceData option) list option"
  pp_latency_us :: real

definition fetchAllPrices_request :: "bool \<Rightarrow> request" where
  "fetchAllPrices_request production = \<lparr> rq_url = API_BASE_URL production @ ''/prices'', rq_signal = None \<rparr>"

text \<open>
  The loop \<open>Object.keys(prices).forEach(symbol => prices[symbol].latency_us = l)\<close>;
  the write to an entry that is \<open>null\<close> throws.
\<close>

fun set_latency :: "(string \<times> PriceData option) list \<Rightarrow> real \<Rightarrow> exception + (string \<times> PriceData) list" where
  "set_latency [] l = Inr []"
| "set_latency ((k, None) # ps) l = Inl TypeError"
| "set_latency ((k, Some q) # ps) l =
     (case set_latency ps l of
        Inl e \<Rightarrow> Inl e
      | Inr qs \<Rightarrow> Inr ((k, q\<lparr>latency_us := l\<rparr>) # qs))"

definition fetchAllPrices ::
  "bool \<Rightarrow> prices_payload transport \<Rightarrow> int \<Rightarrow> (string \<Rightarrow> gen_env) \<Rightarrow> fallback_state
     \<Rightarrow> ((string \<times> PriceData) list \<times> fallback_state) option" where
  "fetchAllPrices production tr now env st =
     (case fetch (fetchAllPrices_request production) tr of
        None \<Rightarrow> None
      | Some Rejected \<Rightarrow> Some (getFallbackData False now env st)
      | Some (Fulfilled ok body) \<Rightarrow>
          if \<not> ok then Some (getFallbackData False now env st)
          else (case body of
                  None \<Rightarrow> Some (getFallbackData False now env st)
                | Some data \<Rightarrow>
                    (case pp_prices data of
                       None \<Rightarrow> Some (getFallbackData False now env st)
                     | Some prices \<Rightarrow>
                         (case set_latency prices (pp_latency_us data) of
                            Inl e \<Rightarrow> Some (getFallbackData False now env st)
                          | Inr qs \<Rightarrow> Some (qs, st)))))"

subsection \<open>fetchStats and healthCheck\<close>

text \<open>The five results of \<open>Math.random()\<close> that the synthetic statistics read, in order.\<close>

record stats_env =
  r_hits :: real
  r_misses :: real
  r_total :: real
  r_rate :: real
  r_avg :: real

definition fallback_stats :: "stats_env \<Rightarrow> CacheStats" where
  "fallback_stats e =
     \<lparr> cache_hits = \<lfloor>binary64 (r_hits e * 10000)\<rfloor>,
       cache_misses = \<lfloor>binary64 (r_misses e * 100)\<rfloor>,
       total_requests = \<lfloor>binary64 (r_total e * 10100)\<rfloor>,
       hit_rate_percent = binary64 (99.5 + binary64 (r_rate e * 0.5)),
       avg_latency_us = binary64 (binary64 0.39 + binary64 (r_avg e * binary64 0.2)) \<rparr>"

definition fetchStats_request :: "bool \<Rightarrow> request" where
  "fetchStats_request production = \<lparr> rq_url = API_BASE_URL production @ ''/stats'', rq_signal = Some 5000 \<rparr>"

text \<open>
  The body of \<open>/stats\<close> is an object whose member \<open>cache_stats\<close> may be missing; the
  function then returns \<open>undefined\<close>, here \<open>None\<close>, as it returns whatever the member is.
\<close>

definition fetchStats :: "bool \<Rightarrow> CacheStats option transport \<Rightarrow> stats_env \<Rightarrow> CacheStats option option" where
  "fetchStats production tr e =
     (case fetch (fetchStats_request production) tr of
        None \<Rightarrow> None
      | Some Rejected \<Rightarrow> Some (Some (fallback_stats e))
      | Some (Fulfilled ok body) \<Rightarrow>
          if \<not> ok then Some (Some (fallback_stats e))
          else (case body of
                  None \<Rightarrow> Some (Some (fallback_stats e))
                | Some member \<Rightarrow> Some member))"

definition healthCheck_request :: "bool \<Rightarrow> request" where
  "healthCheck_request production = \<lparr> rq_url = API_BASE_URL production @ ''/health'', rq_signal = Some 5000 \<rparr>"

definition healthCheck :: "bool \<Rightarrow> 'b transport \<Rightarrow> bool option" where
  "healthCheck production tr =
     (case fetch (healthCheck_request production) tr of
        None \<Rightarrow> None
      | Some Rejected \<Rightarrow> Some False
      | Some (Fulfilled ok body) \<Rightarrow> Some ok)"

subsection \<open>calculateStats\<close>

text \<open>
  The samples are finite doubles. The comparison \<open>(a, b) => a - b\<close> orders them as the
  reals they denote, so the sorted copy is \<open>sort\<close>.
\<close>

record latency_stats =
  min_value :: jsvalue
  max_value :: jsvalue
  mean :: jsvalue
  median :: jsvalue
  p95 :: jsvalue
  p99 :: jsvalue

definition at_index :: "real list \<Rightarrow> int \<Rightarrow> jsvalue" where
  "at_index xs i = (if 0 \<le> i \<and> i < int (length xs) then Number (xs ! nat i) else Undefined)"

text \<open>\<open>xs.reduce((a, b) => a + b, 0)\<close>: the sum from the left, each addition rounded.\<close>

definition float_sum :: "real list \<Rightarrow> jsvalue" where
  "float_sum xs = foldl (\<lambda>a b. js_add a (Number b)) (Number 0) xs"

text \<open>
  The source has no \<open>throw\<close> and no guard, so the function completes normally on every
  array: the result is always \<open>Inr\<close>. The sum of an empty array is the initial value 0 of
  \<open>reduce\<close>, and \<open>0 / 0\<close> is \<open>NaN\<close>.
\<close>

definition calculateStats :: "real list \<Rightarrow> exception + latency_stats" where
  "calculateStats latencies =
     (let sorted = sort latencies;
          len = length sorted
      in Inr \<lparr> min_value = at_index sorted 0,
               max_value = at_index sorted (int len - 1),
               mean = js_div (float_sum sorted) (Number (real len)),
               median = at_index sorted \<lfloor>binary64 (real len / 2)\<rfloor>,
               p95 = at_index sorted \<lfloor>binary64 (real len * binary64 0.95)\<rfloor>,
               p99 = at_index sorted \<lfloor>binary64 (real len * binary64 0.99)\<rfloor> \<rparr>)"

text \<open>
  No addition of the sum from \<open>acc\<close> over \<open>xs\<close> rounds or overflows: every partial
  sum is a double.
\<close>

fun exact_from :: "real \<Rightarrow> real list \<Rightarrow> bool" where
  "exact_from acc [] = True"
| "exact_from acc (x # xs) = (to_number (acc + x) = Number (acc + x) \<and> exact_from (acc + x) xs)"

section \<open>Metrics history of the observability page (Observability)\<close>

text \<open>
  The fields of a snapshot carry the prefix \<open>ms_\<close>, those of a stream payload \<open>pl_\<close>,
  since records of one theory cannot share field names. Counters are integers.
\<close>

record MetricsSnapshot =
  ms_timestamp :: string
  ms_cache_hits :: int
  ms_cache_misses :: int
  ms_stale_hits :: int
  ms_hit_rate_percent :: real
  ms_avg_latency_us :: real
  ms_p95_latency_us :: real
  ms_p99_latency_us :: real
  ms_refresh_errors :: int
  ms_cache_size :: int

text \<open>
  The payload of a stream message, \<open>data.data\<close>: every field may be absent, and the
  handler reads it as \<open>field || 0\<close>, which also maps the number 0 to 0.
\<close>

record stats_payload =
  pl_cache_hits :: "int option"
  pl_cache_misses :: "int option"
  pl_stale_hits :: "int option"
  pl_hit_rate_percent :: "real option"
  pl_avg_latency_us :: "real option"
  pl_p95_latency_us :: "real option"
  pl_p99_latency_us :: "real option"
  pl_refresh_errors :: "int option"
  pl_cache_size :: "int option"

text \<open>
  A parsed stream message: \<open>data.type\<close> and \<open>data.data\<close>; \<open>msg_data = None\<close> is a
  message without a \<open>data\<close> member, on which the field reads throw.
\<close>

record stream_message =
  msg_type :: string
  msg_data :: "stats_payload option"

record observability_state =
  streamStats :: "stats_payload option"
  metricsHistory :: "MetricsSnapshot list"

definition or_zero :: "('a::zero) option \<Rightarrow> 'a" where
  "or_zero v = (case v of None \<Rightarrow> 0 | Some x \<Rightarrow> x)"

definition make_snapshot :: "string \<Rightarrow> stats_payload \<Rightarrow> MetricsSnapshot" where
  "make_snapshot clock_iso d =
     \<lparr> ms_timestamp = clock_iso,
       ms_cache_hits = or_zero (pl_cache_hits d),
       ms_cache_misses = or_zero (pl_cache_misses d),
       ms_stale_hits = or_zero (pl_stale_hits d),
       ms_hit_rate_percent = or_zero (pl_hit_rate_percent d),
       ms_avg_latency_us = or_zero (pl_avg_latency_us d),
       ms_p95_latency_us = or_zero (pl_p95_latency_us d),
       ms_p99_latency_us = or_zero (pl_p99_latency_us d),
       ms_refresh_errors = or_zero (pl_refresh_errors d),
       ms_cache_size = or_zero (pl_cache_size d) \<rparr>"

text \<open>
  The state update \<open>setMetricsHistory((prev) => [...prev.slice(-99), snapshot])\<close>.
\<close>

definition append_snapshot :: "MetricsSnapshot list \<Rightarrow> MetricsSnapshot \<Rightarrow> MetricsSnapshot list" where
  "append_snapshot prev snapshot = slice_from_end 99 prev @ [snapshot]"

text \<open>
  The \<open>onMessage\<close> callback of the page. \<open>None\<close> as the message is a falsy parse result
  (for instance JSON \<open>null\<close>). A message of another type changes nothing. A stats message
  without payload throws inside the callback after \<open>setStreamStats\<close>; the stream client
  catches it, and the history stays as it was.
\<close>

definition onMessage :: "string \<Rightarrow> stream_message option \<Rightarrow> observability_state \<Rightarrow> observability_state" where
  "onMessage clock_iso m st =
     (case m of
        None \<Rightarrow> st
      | Some d \<Rightarrow>
          if msg_type d = ''stats'' then
            (case msg_data d of
               None \<Rightarrow> st\<lparr>streamStats := None\<rparr>
             | Some p \<Rightarrow>
                 st\<lparr>streamStats := Some p,
                    metricsHistory := append_snapshot (metricsHistory st) (make_snapshot clock_iso p)\<rparr>)
          else st)"

text \<open>The history after the snapshots \<open>xs\<close> were appended in order to the empty history.\<close>

definition append_all :: "MetricsSnapshot list \<Rightarrow> MetricsSnapshot list" where
  "append_all xs = foldl append_snapshot [] xs"

text \<open>A snapshot whose timestamp encodes the number \<open>n\<close> (used for concrete runs).\<close>

definition stamp :: "nat \<Rightarrow> MetricsSnapshot" where
  "stamp n = make_snapshot (replicate n (CHR ''t''))
     \<lparr> pl_cache_hits = None, pl_cache_misses = None, pl_stale_hits = None,
       pl_hit_rate_percent = None, pl_avg_latency_us = None, pl_p95_latency_us = None,
       pl_p99_latency_us = None, pl_refresh_errors = None, pl_cache_size = None \<rparr>"

section \<open>Export of results and metrics (lib/export)\<close>

text \<open>The fields of a benchmark result carry the prefix \<open>br_\<close>.\<close>

record BenchmarkResult =
  br_symbol :: string
  br_cached_latency_us :: real
  br_uncached_latency_us :: real
  br_speedup_factor :: real
  br_p95_latency_us :: real
  br_p99_latency_us :: real
  br_sample_count :: int
  br_timestamp :: string

text \<open>
  The micro sign of the headers is the single character with code \<open>0xB5\<close>, the double
  quote has code \<open>0x22\<close> and the line feed \<open>0x0A\<close>.
\<close>

definition micro :: string where
  "micro = [CHR 0xB5]"

definition quoted :: "string \<Rightarrow> string" where
  "quoted cell = [CHR 0x22] @ cell @ [CHR 0x22]"

definition newline :: string where
  "newline = [CHR 0x0A]"

definition benchmark_headers :: "string list" where
  "benchmark_headers =
     [''Symbol'',
      ''Cached Latency ('' @ micro @ ''s)'',
      ''Uncached Latency ('' @ micro @ ''s)'',
      ''Speedup Factor'',
      ''P95 Latency ('' @ micro @ ''s)'',
      ''P99 Latency ('' @ micro @ ''s)'',
      ''Sample Count'',
      ''Timestamp'']"

definition benchmark_row :: "(real \<Rightarrow> string) \<Rightarrow> BenchmarkResult \<Rightarrow> string list" where
  "benchmark_row exponent_form result =
     [br_symbol result,
      toFixed exponent_form 3 (br_cached_latency_us result),
      toFixed exponent_form 3 (br_uncached_latency_us result),
      toFixed exponent_form 0 (br_speedup_factor result),
      toFixed exponent_form 3 (br_p95_latency_us result),
      toFixed exponent_form 3 (br_p99_latency_us result),
      show_int exponent_form (br_sample_count result),
      br_timestamp result]"

definition benchmarkToCSV :: "(real \<Rightarrow> string) \<Rightarrow> BenchmarkResult list \<Rightarrow> string" where
  "benchmarkToCSV exponent_form results =
     (if length results = 0 then ''No benchmark results to export''
      else (let headers = benchmark_headers;
                rows = map (benchmark_row exponent_form) results
            in join newline (join '','' headers # map (\<lambda>row. join '','' (map quoted row)) rows)))"

definition metrics_headers :: "string list" where
  "metrics_headers =
     [''Timestamp'',
      ''Cache Hits'',
      ''Cache Misses'',
      ''Stale Hits'',
      ''Hit Rate (%)'',
      ''Avg Latency ('' @ micro @ ''s)'',
      ''P95 Latency ('' @ micro @ ''s)'',
      ''P99 Latency ('' @ micro @ ''s)'',
      ''Refresh Errors'',
      ''Cache Size'']"

definition metrics_row :: "(real \<Rightarrow> string) \<Rightarrow> MetricsSnapshot \<Rightarrow> string list" where
  "metrics_row exponent_form metric =
     [ms_timestamp metric,
      show_int exponent_form (ms_cache_hits metric),
      show_int exponent_form (ms_cache_misses metric),
      show_int exponent_form (ms_stale_hits metric),
      toFixed exponent_form 2 (ms_hit_rate_percent metric),
      toFixed exponent_form 3 (ms_avg_latency_us metric),
      toFixed exponent_form 3 (ms_p95_latency_us metric),
      toFixed exponent_form 3 (ms_p99_latency_us metric),
      show_int exponent_form (ms_refresh_errors metric),
      show_int exponent_form (ms_cache_size metric)]"

definition metricsToCSV :: "(real \<Rightarrow> string) \<Rightarrow> MetricsSnapshot list \<Rightarrow> string" where
  "metricsToCSV exponent_form metrics =
     (if length metrics = 0 then ''No metrics data to export''
      else (let headers = metrics_headers;
                rows = map (metrics_row exponent_form) metrics
            in join newline (join '','' headers # map (\<lambda>row. join '','' (map quoted row)) rows)))"

text \<open>
  The CSV branch of \<open>exportBenchmarkResults\<close> and \<open>exportMetricsHistory\<close>: the content
  and the MIME type handed to \<open>downloadFile\<close> (the file name depends on the clock only).
\<close>

definition exportBenchmarkResults_csv ::
  "(real \<Rightarrow> string) \<Rightarrow> BenchmarkResult list \<Rightarrow> string \<times> string" where
  "exportBenchmarkResults_csv exponent_form results =
     (benchmarkToCSV exponent_form results, ''text/csv'')"

definition exportMetricsHistory_csv ::
  "(real \<Rightarrow> string) \<Rightarrow> MetricsSnapshot list \<Rightarrow> string \<times> string" where
  "exportMetricsHistory_csv exponent_form metrics =
     (metricsToCSV exponent_form metrics, ''text/csv'')"

section \<open>The stream client (hooks/useWebSocket.ts)\<close>

text \<open>
  The options of the hook that the reconnection logic reads. \<open>ctor_error\<close> stands for the
  \<open>WebSocket\<close> constructor: \<open>None\<close> when it accepts the URL, otherwise the text of the
  exception it throws.
\<close>

record ws_options =
  url :: string
  reconnectInterval :: nat
  maxReconnectAttempts :: nat
  ctor_error :: "string \<Rightarrow> string option"

definition default_options :: "string \<Rightarrow> ws_options" where
  "default_options u =
     \<lparr> url = u, reconnectInterval = 3000, maxReconnectAttempts = 5, ctor_error = (\<lambda>_. None) \<rparr>"

datatype readyState = CONNECTING | OPEN | CLOSING | CLOSED

text \<open>
  The state of one mounted hook. \<open>sockets\<close> holds the ready state of every
  \<open>WebSocket\<close> the hook has created, a socket being named by its index; all of them
  carry the same four handlers. \<open>timers\<close> holds the pending timeouts as pairs of a timer
  handle and a delay in milliseconds; \<open>reconnectTimeoutRef\<close> keeps the handle of the last
  timeout set, also after it has fired or was cleared, as the source never resets it.
  \<open>scheduled\<close> is the list of all delays given to \<open>setTimeout\<close> so far, oldest first
  (the source prints each of them to the console).
\<close>

record ws_state =
  sockets :: "readyState list"
  wsRef :: "nat option"
  reconnectAttemptsRef :: nat
  reconnectTimeoutRef :: "nat option"
  timers :: "(nat \<times> nat) list"
  next_timer :: nat
  isConnected :: bool
  lastError :: "string option"
  scheduled :: "nat list"

definition initial_ws_state :: ws_state where
  "initial_ws_state =
     \<lparr> sockets = [], wsRef = None, reconnectAttemptsRef = 0, reconnectTimeoutRef = None,
       timers = [], next_timer = 1, isConnected = False, lastError = None, scheduled = [] \<rparr>"

text \<open>\<open>url.replace(/^https?:/, ...)\<close>: \<open>https:\<close> becomes \<open>wss:\<close>, \<open>http:\<close> becomes \<open>ws:\<close>.\<close>

definition wsUrl :: "string \<Rightarrow> string" where
  "wsUrl u = (if take 6 u = ''https:'' then ''wss:'' @ drop 6 u
              else if take 5 u = ''http:'' then ''ws:'' @ drop 5 u
              else u)"

definition connect :: "ws_options \<Rightarrow> ws_state \<Rightarrow> ws_state" where
  "connect opts st =
     (case ctor_error opts (wsUrl (url opts)) of
        None \<Rightarrow> st\<lparr>sockets := sockets st @ [CONNECTING], wsRef := Some (length (sockets st))\<rparr>
      | Some err \<Rightarrow> st\<lparr>lastError := Some err\<rparr>)"

definition onopen :: "ws_state \<Rightarrow> ws_state" where
  "onopen st = st\<lparr>isConnected := True, lastError := None, reconnectAttemptsRef := 0\<rparr>"

definition onerror :: "ws_state \<Rightarrow> ws_state" where
  "onerror st = st\<lparr>lastError := Some ''WebSocket connection error''\<rparr>"

text \<open>The delay of the reconnection that \<open>onclose\<close> schedules at attempt counter \<open>a\<close>.\<close>

definition backoffMs :: "ws_options \<Rightarrow> nat \<Rightarrow> nat" where
  "backoffMs opts a = reconnectInterval opts * 2 ^ a"

definition onclose :: "ws_options \<Rightarrow> ws_state \<Rightarrow> ws_state" where
  "onclose opts st =
     (let st1 = st\<lparr>isConnected := False\<rparr>
      in if reconnectAttemptsRef st1 < maxReconnectAttempts opts
         then st1\<lparr>timers := timers st1 @ [(next_timer st1, backoffMs opts (reconnectAttemptsRef st1))],
                  reconnectTimeoutRef := Some (next_timer st1),
                  next_timer := next_timer st1 + 1,
                  scheduled := scheduled st1 @ [backoffMs opts (reconnectAttemptsRef st1)]\<rparr>
         else st1\<lparr>lastError := Some ''Max reconnection attempts reached''\<rparr>)"

text \<open>The callback of the reconnection timeout.\<close>

definition reconnect :: "ws_options \<Rightarrow> ws_state \<Rightarrow> ws_state" where
  "reconnect opts st = connect opts (st\<lparr>reconnectAttemptsRef := reconnectAttemptsRef st + 1\<rparr>)"

text \<open>
  \<open>WebSocket.close()\<close> does nothing on a socket that is closing or closed; otherwise the
  socket is closing, and its close event is delivered later.
\<close>

definition close_socket :: "readyState \<Rightarrow> readyState" where
  "close_socket r = (case r of CONNECTING \<Rightarrow> CLOSING | OPEN \<Rightarrow> CLOSING | CLOSING \<Rightarrow> CLOSING | CLOSED \<Rightarrow> CLOSED)"

definition clearTimeout :: "nat \<Rightarrow> (nat \<times> nat) list \<Rightarrow> (nat \<times> nat) list" where
  "clearTimeout h ts = filter (\<lambda>t. fst t \<noteq> h) ts"

definition disconnect :: "ws_state \<Rightarrow> ws_state" where
  "disconnect st =
     (let st1 = (case reconnectTimeoutRef st of
                   None \<Rightarrow> st
                 | Some h \<Rightarrow> st\<lparr>timers := clearTimeout h (timers st)\<rparr>);
          st2 = (case wsRef st1 of
                   None \<Rightarrow> st1
                 | Some i \<Rightarrow> st1\<lparr>sockets := (sockets st1)[i := close_socket (sockets st1 ! i)],
                                wsRef := None\<rparr>)
      in st2\<lparr>isConnected := False\<rparr>)"

text \<open>
  What can happen to a mounted hook: the browser delivers the open, error or close event of
  a socket or fires a pending timeout, and the owner calls \<open>disconnect\<close>. An event that
  the browser cannot deliver in the state (the open event of a socket that is not
  connecting, an event of a closed socket, a timeout that is not pending) gives \<open>None\<close>.
\<close>

datatype ws_event = SockOpen nat | SockError nat | SockClose nat | TimerFire nat | Disconnect

definition socket_in :: "ws_state \<Rightarrow> nat \<Rightarrow> readyState list \<Rightarrow> bool" where
  "socket_in st i rs = (i < length (sockets st) \<and> sockets st ! i \<in> set rs)"

fun step :: "ws_options \<Rightarrow> ws_event \<Rightarrow> ws_state \<Rightarrow> ws_state option" where
  "step opts (SockOpen i) st =
     (if socket_in st i [CONNECTING]
      then Some (onopen (st\<lparr>sockets := (sockets st)[i := OPEN]\<rparr>)) else None)"
| "step opts (SockError i) st =
     (if socket_in st i [CONNECTING, OPEN, CLOSING] then Some (onerror st) else None)"
| "step opts (SockClose i) st =
     (if socket_in st i [CONNECTING, OPEN, CLOSING]
      then Some (onclose opts (st\<lparr>sockets := (sockets st)[i := CLOSED]\<rparr>)) else None)"
| "step opts (TimerFire h) st =
     (if h \<in> set (map fst (timers st))
      then Some (reconnect opts (st\<lparr>timers := clearTimeout h (timers st)\<rparr>)) else None)"
| "step opts Disconnect st = Some (disconnect st)"

fun run :: "ws_options \<Rightarrow> ws_event list \<Rightarrow> ws_state \<Rightarrow> ws_state option" where
  "run opts [] st = Some st"
| "run opts (e # es) st = (case step opts e st of None \<Rightarrow> None | Some st' \<Rightarrow> run opts es st')"

text \<open>The hook after mounting: the effect has called \<open>connect\<close>.\<close>

definition mounted :: "ws_options \<Rightarrow> ws_state" where
  "mounted opts = connect opts initial_ws_state"

text \<open>
  The events of \<open>n\<close> connections in a row that close without opening, each followed by
  its reconnection timeout (timer handles count from 1, sockets from 0).
\<close>

definition failing_attempts :: "nat \<Rightarrow> ws_event list" where
  "failing_attempts n = concat (map (\<lambda>i. [SockClose i, TimerFire (i + 1)]) [0..<n])"

section \<open>Properties of the rounding to doubles\<close>

text \<open>
  The rounding is monotone, it is evaluated by \<open>binary64_eval\<close> once the binade of the
  argument is known, and it leaves the doubles alone: the integers below \<open>2^53\<close> and
  their quotients by powers of two.
\<close>

lemma round_even_of_int: "round_even (of_int n) = n"
  by (simp add: round_even_def)

lemma round_even_zero: "round_even 0 = 0"
  by (simp add: round_even_def)

lemma round_even_bounds: "\<lfloor>x\<rfloor> \<le> round_even x \<and> round_even x \<le> \<lfloor>x\<rfloor> + 1"
  by (simp add: round_even_def Let_def)

lemma round_even_ge: "of_int n \<le> x \<Longrightarrow> n \<le> round_even x"
proof -
  assume "of_int n \<le> x"
  then have "n \<le> \<lfloor>x\<rfloor>"
    by (simp add: le_floor_iff)
  with round_even_bounds [of x] show ?thesis
    by linarith
qed

lemma round_even_le: "x \<le> of_int n \<Longrightarrow> round_even x \<le> n"
proof (cases "x = of_int n")
  case True
  then show ?thesis
    by (simp add: round_even_of_int)
next
  case False
  assume "x \<le> of_int n"
  with False have "x < of_int n"
    by simp
  then have "\<lfloor>x\<rfloor> < n"
    by (simp add: floor_less_iff)
  with round_even_bounds [of x] show ?thesis
    by linarith
qed

lemma round_even_mono: "x \<le> y \<Longrightarrow> round_even x \<le> round_even y"
proof (cases "\<lfloor>x\<rfloor> = \<lfloor>y\<rfloor>")
  case False
  assume "x \<le> y"
  then have "\<lfloor>x\<rfloor> \<le> \<lfloor>y\<rfloor>"
    by (rule floor_mono)
  with False have "\<lfloor>x\<rfloor> + 1 \<le> \<lfloor>y\<rfloor>"
    by simp
  with round_even_bounds [of x] round_even_bounds [of y] show ?thesis
    by linarith
next
  case True
  assume "x \<le> y"
  with True show ?thesis
    by (auto simp: round_even_def Let_def)
qed

lemma round_even_near: "\<bar>x - of_int n\<bar> < 1 / 2 \<Longrightarrow> round_even x = n"
proof (cases "of_int n \<le> x")
  case True
  assume a: "\<bar>x - of_int n\<bar> < 1 / 2"
  with True have "\<lfloor>x\<rfloor> = n"
    by (intro floor_unique) auto
  with a True show ?thesis
    by (auto simp: round_even_def Let_def)
next
  case False
  assume a: "\<bar>x - of_int n\<bar> < 1 / 2"
  with False have "\<lfloor>x\<rfloor> = n - 1"
    by (intro floor_unique) auto
  with a False show ?thesis
    by (auto simp: round_even_def Let_def)
qed

lemma bitlen_eqI:
  assumes "2 ^ n \<le> m" and "m < 2 ^ Suc n"
  shows "bitlen m = int n + 1"
proof (rule antisym)
  show "bitlen m \<le> int n + 1"
    using assms(2) by (simp add: bitlen_le_iff_power nat_add_distrib)
  show "int n + 1 \<le> bitlen m"
    using assms(1) by (simp add: bitlen_ge_iff_power nat_add_distrib)
qed

lemma floor_bounds_pow:
  assumes "2 ^ n \<le> y" and "y < 2 ^ m"
  shows "2 ^ n \<le> \<lfloor>y\<rfloor>" and "\<lfloor>y\<rfloor> < 2 ^ m"
proof -
  have "of_int (2 ^ n) \<le> y"
    using assms(1) by simp
  then show "2 ^ n \<le> \<lfloor>y\<rfloor>"
    by (simp only: le_floor_iff)
  have "y < of_int (2 ^ m)"
    using assms(2) by simp
  then show "\<lfloor>y\<rfloor> < 2 ^ m"
    by (simp only: floor_less_iff)
qed

lemma round53_eval:
  assumes "2 ^ (52 + j) \<le> y" and "y < 2 ^ (53 + j)"
  shows "round53 y = of_int (round_even (y / 2 ^ j)) * 2 ^ j"
proof -
  have "bitlen \<lfloor>y\<rfloor> = int (52 + j) + 1"
    using floor_bounds_pow [OF assms(1), of "Suc (52 + j)"] assms(2)
    by (intro bitlen_eqI) simp_all
  then have k: "bitlen \<lfloor>y\<rfloor> = 53 + int j"
    by simp
  show ?thesis
    unfolding round53_def Let_def k by (cases "j = 0") (simp_all add: nat_add_distrib)
qed

lemma round53_small:
  assumes "0 \<le> y" and "y < 2 ^ 53"
  shows "round53 y = of_int (round_even y)"
proof -
  have "\<lfloor>y\<rfloor> < 2 ^ 53"
    using assms(2) by (simp add: floor_less_iff)
  then have "bitlen \<lfloor>y\<rfloor> \<le> 53"
    by (simp add: bitlen_le_iff_power)
  then show ?thesis
    by (simp add: round53_def Let_def)
qed


lemma round53_upper:
  assumes "0 \<le> y"
  shows "round53 y \<le> 2 ^ nat (bitlen \<lfloor>y\<rfloor>)"
proof -
  let ?k = "bitlen \<lfloor>y\<rfloor>"
  have "\<lfloor>y\<rfloor> < 2 ^ nat ?k"
    using bitlen_le_iff_power [of "\<lfloor>y\<rfloor>" ?k] bitlen_nonneg [of "\<lfloor>y\<rfloor>"] by simp
  then have "y < of_int (2 ^ nat ?k)"
    by (simp only: floor_less_iff)
  then have y: "y \<le> 2 ^ nat ?k"
    by simp
  show ?thesis
  proof (cases "?k \<le> 53")
    case True
    have "round_even y \<le> 2 ^ nat ?k"
      using y by (intro round_even_le) simp
    then have "real_of_int (round_even y) \<le> real_of_int (2 ^ nat ?k)"
      by (simp only: of_int_le_iff)
    with True show ?thesis
      by (simp add: round53_def Let_def)
  next
    case False
    then have e: "nat ?k = 53 + nat (?k - 53)"
      by simp
    have "y \<le> 2 ^ 53 * 2 ^ nat (?k - 53)"
      using y by (subst (asm) e) (simp only: power_add)
    then have "y / 2 ^ nat (?k - 53) \<le> 2 ^ 53"
      by (simp only: pos_divide_le_eq zero_less_power zero_less_numeral)
    then have "round_even (y / 2 ^ nat (?k - 53)) \<le> 2 ^ 53"
      by (intro round_even_le) simp
    then have "real_of_int (round_even (y / 2 ^ nat (?k - 53))) \<le> real_of_int (2 ^ 53)"
      by (simp only: of_int_le_iff)
    then have "real_of_int (round_even (y / 2 ^ nat (?k - 53))) * 2 ^ nat (?k - 53)
               \<le> 2 ^ 53 * 2 ^ nat (?k - 53)"
      by (simp add: mult_right_mono)
    also have "\<dots> = 2 ^ nat ?k"
      by (subst e) (simp only: power_add)
    finally have "real_of_int (round_even (y / 2 ^ nat (?k - 53))) * 2 ^ nat (?k - 53) \<le> 2 ^ nat ?k" .
    moreover have "round53 y = real_of_int (round_even (y / 2 ^ nat (?k - 53))) * 2 ^ nat (?k - 53)"
      using False by (simp add: round53_def Let_def)
    ultimately show ?thesis
      by (simp only:)
  qed
qed

lemma round53_lower:
  assumes "1 \<le> y"
  shows "2 ^ nat (bitlen \<lfloor>y\<rfloor> - 1) \<le> round53 y"
proof -
  let ?k = "bitlen \<lfloor>y\<rfloor>"
  have pos: "0 < \<lfloor>y\<rfloor>"
    using assms by (simp add: less_floor_iff)
  have "2 ^ nat (?k - 1) \<le> \<lfloor>y\<rfloor>"
    using bitlen_bounds [OF pos] by simp
  then have "of_int (2 ^ nat (?k - 1)) \<le> y"
    by (simp only: le_floor_iff)
  then have y: "2 ^ nat (?k - 1) \<le> y"
    by simp
  show ?thesis
  proof (cases "?k \<le> 53")
    case True
    have "2 ^ nat (?k - 1) \<le> round_even y"
      using y by (intro round_even_ge) simp
    then have "real_of_int (2 ^ nat (?k - 1)) \<le> real_of_int (round_even y)"
      by (simp only: of_int_le_iff)
    with True show ?thesis
      by (simp add: round53_def Let_def)
  next
    case False
    then have e: "nat (?k - 1) = 52 + nat (?k - 53)"
      by simp
    have "2 ^ 52 * 2 ^ nat (?k - 53) \<le> y"
      using y by (subst (asm) e) (simp only: power_add)
    then have "2 ^ 52 \<le> y / 2 ^ nat (?k - 53)"
      by (simp only: pos_le_divide_eq zero_less_power zero_less_numeral)
    then have "2 ^ 52 \<le> round_even (y / 2 ^ nat (?k - 53))"
      by (intro round_even_ge) simp
    then have "real_of_int (2 ^ 52) \<le> real_of_int (round_even (y / 2 ^ nat (?k - 53)))"
      by (simp only: of_int_le_iff)
    then have "2 ^ 52 * 2 ^ nat (?k - 53)
               \<le> real_of_int (round_even (y / 2 ^ nat (?k - 53))) * 2 ^ nat (?k - 53)"
      by (simp add: mult_right_mono)
    moreover have "(2::real) ^ 52 * 2 ^ nat (?k - 53) = 2 ^ nat (?k - 1)"
      by (subst e) (simp only: power_add)
    ultimately have "2 ^ nat (?k - 1)
               \<le> real_of_int (round_even (y / 2 ^ nat (?k - 53))) * 2 ^ nat (?k - 53)"
      by (simp only:)
    moreover have "round53 y = real_of_int (round_even (y / 2 ^ nat (?k - 53))) * 2 ^ nat (?k - 53)"
      using False by (simp add: round53_def Let_def)
    ultimately show ?thesis
      by (simp only:)
  qed
qed

lemma round53_nonneg: "0 \<le> y \<Longrightarrow> 0 \<le> round53 y"
proof -
  assume "0 \<le> y"
  then have "\<And>u. 0 < u \<Longrightarrow> 0 \<le> round_even (y / u)"
    by (intro round_even_ge) simp
  then show ?thesis
    by (simp add: round53_def Let_def)
qed

lemma round53_mono:
  assumes "0 \<le> y" and "y \<le> z"
  shows "round53 y \<le> round53 z"
proof -
  let ?k = "bitlen \<lfloor>y\<rfloor>" and ?l = "bitlen \<lfloor>z\<rfloor>"
  have fl: "\<lfloor>y\<rfloor> \<le> \<lfloor>z\<rfloor>"
    using assms(2) by (rule floor_mono)
  have "0 \<le> \<lfloor>y\<rfloor>"
    using assms(1) by simp
  with fl have kl: "?k \<le> ?l"
    by (simp add: bitlen_def floorlog_mono nat_mono)
  show ?thesis
  proof (cases "?k = ?l")
    case True
    have m: "of_int (round_even (y / u)) * u \<le> of_int (round_even (z / u)) * u" if "0 < u" for u :: real
      using assms(2) that by (simp add: round_even_mono divide_right_mono)
    show ?thesis
    proof (cases "?k \<le> 53")
      case k: True
      with m [of 1] show ?thesis
        by (simp add: round53_def Let_def True [symmetric])
    next
      case k: False
      with m [of "2 ^ nat (?k - 53)"] show ?thesis
        by (simp add: round53_def Let_def True [symmetric])
    qed
  next
    case False
    with kl have lt: "?k < ?l"
      by simp
    have "0 \<le> ?k"
      by (rule bitlen_nonneg)
    with lt have "0 < ?l"
      by simp
    then have "0 < \<lfloor>z\<rfloor>"
      by (metis bitlen_eq_zero_iff not_le order_less_irrefl)
    then have z1: "1 \<le> z"
      by (simp add: less_floor_iff)
    have "round53 y \<le> 2 ^ nat ?k"
      using assms(1) by (rule round53_upper)
    also have "\<dots> \<le> (2::real) ^ nat (?l - 1)"
      using lt by (intro power_increasing) simp_all
    also have "\<dots> \<le> round53 z"
      using z1 by (rule round53_lower)
    finally show ?thesis .
  qed
qed

lemma binary64_zero: "binary64 0 = 0"
  by (simp add: binary64_def)

lemma binary64_minus: "binary64 (- x) = - binary64 x"
  by (simp add: binary64_def sgn_minus)

lemma binary64_pos: "0 \<le> x \<Longrightarrow> binary64 x = round53 (x * 2 ^ 1074) / 2 ^ 1074"
  by (cases "x = 0") (simp_all add: binary64_def round53_def Let_def round_even_zero)

lemma binary64_nonneg: "0 \<le> x \<Longrightarrow> 0 \<le> binary64 x"
  by (simp add: binary64_pos round53_nonneg)

lemma binary64_mono_pos: "0 \<le> x \<Longrightarrow> x \<le> y \<Longrightarrow> binary64 x \<le> binary64 y"
  by (simp add: binary64_pos round53_mono divide_right_mono)

lemma binary64_mono: "x \<le> y \<Longrightarrow> binary64 x \<le> binary64 y"
proof -
  assume xy: "x \<le> y"
  consider "0 \<le> x" | "x < 0" "0 \<le> y" | "y < 0"
    using xy by linarith
  then show ?thesis
  proof cases
    case 1
    then show ?thesis
      using xy by (rule binary64_mono_pos)
  next
    case 2
    have "binary64 x = - binary64 (- x)"
      by (simp add: binary64_minus)
    moreover have "0 \<le> binary64 (- x)"
      using 2(1) by (intro binary64_nonneg) simp
    moreover have "0 \<le> binary64 y"
      using 2(2) by (rule binary64_nonneg)
    ultimately show ?thesis
      by simp
  next
    case 3
    have "binary64 (- y) \<le> binary64 (- x)"
      using 3 xy by (intro binary64_mono_pos) simp_all
    then show ?thesis
      by (simp add: binary64_minus)
  qed
qed

lemma frac_cross: "(c::real) \<noteq> 0 \<Longrightarrow> d \<noteq> 0 \<Longrightarrow> a * d = b * c \<Longrightarrow> a / c = b / d"
  by (simp add: frac_eq_eq)

lemma binary64_eval:
  assumes "2 ^ 52 \<le> x * 2 ^ a / 2 ^ b" and "x * 2 ^ a / 2 ^ b < 2 ^ 53" and "a \<le> b + 1074"
  shows "binary64 x = of_int (round_even (x * 2 ^ a / 2 ^ b)) * 2 ^ b / 2 ^ a"
proof -
  define j where "j = b + 1074 - a"
  have e: "j + a = b + 1074"
    using assms(3) by (simp add: j_def)
  have p: "(2::real) ^ j * 2 ^ a = 2 ^ b * 2 ^ 1074"
    by (simp only: power_add [symmetric] e)
  have x0: "0 \<le> x"
  proof (rule ccontr)
    assume "\<not> 0 \<le> x"
    then have "x * 2 ^ a / 2 ^ b < 0"
      by (simp add: divide_neg_pos mult_neg_pos)
    with assms(1) show False
      by (smt (verit) zero_le_power)
  qed
  have q: "x * 2 ^ 1074 / 2 ^ j = x * 2 ^ a / 2 ^ b"
    using p by (simp add: field_simps)
  have lo: "2 ^ (52 + j) \<le> x * 2 ^ 1074"
    using assms(1) unfolding q [symmetric] by (simp add: power_add le_divide_eq)
  have hi: "x * 2 ^ 1074 < 2 ^ (53 + j)"
    using assms(2) unfolding q [symmetric] by (simp add: power_add divide_less_eq)
  have r: "round53 (x * 2 ^ 1074) = of_int (round_even (x * 2 ^ a / 2 ^ b)) * 2 ^ j"
    using round53_eval [OF lo hi] unfolding q .
  have f: "(2::real) ^ j / 2 ^ 1074 = 2 ^ b / 2 ^ a"
  proof -
    have "(2::real) ^ 1074 \<noteq> 0" and "(2::real) ^ a \<noteq> 0"
      by (simp_all only: power_not_zero zero_neq_numeral not_False_eq_True)
    then show ?thesis
      using p by (rule frac_cross)
  qed
  have "binary64 x = of_int (round_even (x * 2 ^ a / 2 ^ b)) * 2 ^ j / 2 ^ 1074"
    unfolding binary64_pos [OF x0] r ..
  also have "\<dots> = of_int (round_even (x * 2 ^ a / 2 ^ b)) * (2 ^ j / 2 ^ 1074)"
    by (simp only: times_divide_eq_right)
  also have "\<dots> = of_int (round_even (x * 2 ^ a / 2 ^ b)) * 2 ^ b / 2 ^ a"
    unfolding f by (simp only: times_divide_eq_right)
  finally show ?thesis .
qed


lemma binary64_between:
  assumes "binary64 a = a" and "binary64 b = b" and "a \<le> x" and "x \<le> b"
  shows "a \<le> binary64 x \<and> binary64 x \<le> b"
  using binary64_mono [OF assms(3)] binary64_mono [OF assms(4)] assms(1,2) by simp

lemma binary64_near:
  assumes "2 ^ 52 \<le> x * 2 ^ a / 2 ^ b" and "\<bar>x * 2 ^ a / 2 ^ b - of_int m\<bar> < 1 / 2"
    and "m < 2 ^ 53" and "a \<le> b + 1074"
  shows "binary64 x = of_int m * 2 ^ b / 2 ^ a"
proof -
  have "m \<le> 2 ^ 53 - 1"
    using assms(3) by simp
  then have "real_of_int m \<le> real_of_int (2 ^ 53 - 1)"
    by (simp only: of_int_le_iff)
  then have "real_of_int m \<le> 2 ^ 53 - 1"
    by simp
  with assms(2) have "x * 2 ^ a / 2 ^ b < 2 ^ 53"
    by linarith
  with assms(1,4) have "binary64 x = of_int (round_even (x * 2 ^ a / 2 ^ b)) * 2 ^ b / 2 ^ a"
    by (intro binary64_eval)
  with round_even_near [OF assms(2)] show ?thesis
    by simp
qed

lemma double_scaled:
  assumes "2 ^ 52 \<le> m" and "m < 2 ^ 53" and "a \<le> b + 1074"
  shows "binary64 (of_int m * 2 ^ b / 2 ^ a) = of_int m * 2 ^ b / 2 ^ a"
proof -
  have e: "of_int m * 2 ^ b / 2 ^ a * 2 ^ a / 2 ^ b = (of_int m :: real)"
    by simp
  have "real_of_int (2 ^ 52) \<le> real_of_int m"
    using assms(1) by (simp only: of_int_le_iff)
  then have "2 ^ 52 \<le> real_of_int m"
    by simp
  then have a1: "2 ^ 52 \<le> real_of_int m * 2 ^ b / 2 ^ a * 2 ^ a / 2 ^ b"
    unfolding e .
  have a2: "\<bar>real_of_int m * 2 ^ b / 2 ^ a * 2 ^ a / 2 ^ b - real_of_int m\<bar> < 1 / 2"
    unfolding e by simp
  show ?thesis
    using a1 a2 assms(2,3) by (rule binary64_near)
qed

lemma normalise53:
  assumes "0 < q" and "q < 2 ^ 53"
  shows "2 ^ 52 \<le> q * 2 ^ nat (53 - bitlen q)" and "q * 2 ^ nat (53 - bitlen q) < 2 ^ 53"
proof -
  let ?k = "bitlen q"
  have k1: "1 \<le> ?k"
    using assms(1) by (simp add: bitlen_ge_iff_power)
  have k53: "?k \<le> 53"
    using assms(2) by (simp add: bitlen_le_iff_power)
  have b: "2 ^ nat (?k - 1) \<le> q" "q < 2 ^ nat ?k"
    using bitlen_bounds [OF assms(1)] by simp_all
  have "(2::int) ^ 52 = 2 ^ nat (?k - 1) * 2 ^ nat (53 - ?k)"
    using k1 k53 by (simp only: power_add [symmetric]) (simp add: nat_diff_distrib)
  also have "\<dots> \<le> q * 2 ^ nat (53 - ?k)"
    using b(1) by (simp add: mult_right_mono)
  finally show "2 ^ 52 \<le> q * 2 ^ nat (53 - ?k)" .
  have "q * 2 ^ nat (53 - ?k) < 2 ^ nat ?k * 2 ^ nat (53 - ?k)"
    using b(2) by (simp add: mult_strict_right_mono)
  also have "\<dots> = (2::int) ^ 53"
    using k1 k53 by (simp only: power_add [symmetric]) (simp add: nat_diff_distrib)
  finally show "q * 2 ^ nat (53 - ?k) < 2 ^ 53" .
qed

lemma double_dyadic:
  assumes "0 < t" and "t < 2 ^ 53" and "c \<le> 1021"
  shows "binary64 (of_int t / 2 ^ c) = of_int t / 2 ^ c"
proof -
  let ?s = "nat (53 - bitlen t)"
  have "bitlen t \<ge> 0"
    by (rule bitlen_nonneg)
  then have s: "?s \<le> 53"
    by simp
  have "binary64 (of_int (t * 2 ^ ?s) * 2 ^ 0 / 2 ^ (c + ?s)) = of_int (t * 2 ^ ?s) * 2 ^ 0 / 2 ^ (c + ?s)"
    using normalise53 [OF assms(1,2)] assms(3) s by (intro double_scaled) simp_all
  moreover have "real_of_int (t * 2 ^ ?s) * 2 ^ 0 / 2 ^ (c + ?s) = of_int t / 2 ^ c"
    by (simp add: power_add)
  ultimately show ?thesis
    by simp
qed

lemma double_int:
  assumes "0 \<le> q" and "q < 2 ^ 53"
  shows "binary64 (of_int q) = of_int q"
proof (cases "q = 0")
  case True
  then show ?thesis
    by (simp add: binary64_zero)
next
  case False
  with assms(1) have "0 < q"
    by simp
  then show ?thesis
    using double_dyadic [of q 0] assms(2) by simp
qed


lemma floor_near_int:
  fixes q :: int
  assumes "0 < q" and "q < 2 ^ 32" and np: "\<forall>s\<le>52. q * 2 ^ s \<noteq> 2 ^ 52"
    and lo: "of_int q - of_int q / 2 ^ 54 < x" and hi: "x \<le> of_int q"
  shows "binary64 x = of_int q"
proof -
  let ?s = "nat (53 - bitlen q)"
  define m where "m = q * 2 ^ ?s"
  define P where "P = (2::real) ^ ?s"
  have q53: "q < 2 ^ 53"
    using assms(2) by simp
  have m: "2 ^ 52 \<le> m" "m < 2 ^ 53"
    using normalise53 [OF assms(1) q53] by (simp_all add: m_def)
  have "1 \<le> bitlen q"
    using assms(1) by (simp add: bitlen_ge_iff_power)
  then have s52: "?s \<le> 52"
    by simp
  then have s1074: "?s \<le> 0 + 1074"
    by simp
  from s52 np have "m \<noteq> 2 ^ 52"
    by (simp add: m_def)
  with m(1) have "2 ^ 52 + 1 \<le> m"
    by simp
  then have "real_of_int (2 ^ 52 + 1) \<le> real_of_int m"
    by (simp only: of_int_le_iff)
  then have m_lo: "2 ^ 52 + 1 \<le> real_of_int m"
    by simp
  have "real_of_int m < real_of_int (2 ^ 53)"
    using m(2) by (simp only: of_int_less_iff)
  then have m_hi: "real_of_int m < 2 ^ 53"
    by simp
  have P: "0 < P"
    by (simp add: P_def)
  have mq: "real_of_int m = real_of_int q * P"
    by (simp add: m_def P_def)
  have "(real_of_int q - real_of_int q / 2 ^ 54) * P < x * P"
    using lo P by (rule mult_strict_right_mono)
  then have z_lo: "real_of_int m - real_of_int m / 2 ^ 54 < x * P"
    by (simp add: mq algebra_simps)
  have z_hi: "x * P \<le> real_of_int m"
    unfolding mq using hi P by (simp add: mult_right_mono)
  have half: "real_of_int m / 2 ^ 54 < 1 / 2"
    using m_hi by simp
  have a1: "2 ^ 52 \<le> x * 2 ^ ?s / 2 ^ 0"
    using z_lo half m_lo by (simp add: P_def)
  have a2: "\<bar>x * 2 ^ ?s / 2 ^ 0 - real_of_int m\<bar> < 1 / 2"
    using z_lo z_hi half by (simp add: P_def)
  have "binary64 x = real_of_int m * 2 ^ 0 / 2 ^ ?s"
    using a1 a2 m(2) s1074 by (rule binary64_near)
  then show ?thesis
    by (simp add: m_def)
qed

lemma floor_between_ints:
  fixes q :: int
  assumes "0 \<le> q" and "q < 2 ^ 32" and "of_int q \<le> x" and "x \<le> of_int q + 1 - 1 / 2 ^ 20"
  shows "\<lfloor>binary64 x\<rfloor> = q"
proof -
  let ?t = "(q + 1) * 2 ^ 20 - 1"
  have a: "binary64 (of_int q) = of_int q"
    using assms(1,2) by (intro double_int) simp_all
  have d: "binary64 (real_of_int ?t / 2 ^ 20) = real_of_int ?t / 2 ^ 20"
    using assms(1,2) by (intro double_dyadic) simp_all
  have t: "real_of_int ?t / 2 ^ 20 = of_int q + 1 - 1 / 2 ^ 20"
    by (simp add: field_simps)
  have b: "binary64 (of_int q + 1 - 1 / 2 ^ 20) = of_int q + 1 - 1 / 2 ^ 20"
    using d unfolding t .
  from binary64_between [OF a b assms(3,4)]
  have "of_int q \<le> binary64 x" and "binary64 x < of_int q + 1"
    by simp_all
  then show ?thesis
    by (simp add: floor_unique)
qed

text \<open>
  The products \<open>n * 0.95\<close> and \<open>n * 0.99\<close> and the quotient \<open>n / 2\<close> that the source
  computes in doubles have the floors of the exact products and quotient, for every array
  length \<open>n\<close>.
\<close>

lemma lit_095: "binary64 0.95 = 4278419646001971 / 4503599627370496"
  using binary64_eval [of "0.95" 53 0] by (simp add: round_even_def)

lemma lit_099: "binary64 0.99 = 4458563631096791 / 4503599627370496"
  using binary64_eval [of "0.99" 53 0] by (simp add: round_even_def)

lemma nat_bound_32:
  assumes "(n::nat) < 2 ^ 32"
  shows "real n < 4294967296" and "int n < 2 ^ 32"
proof -
  have "n < 4294967296"
    using assms by simp
  then show "real n < 4294967296"
    by simp
  have "int n < int (2 ^ 32)"
    using assms by (simp only: of_nat_less_iff)
  then show "int n < 2 ^ 32"
    by simp
qed

lemma index_095:
  assumes "0 < n" and "n < 2 ^ 32"
  shows "\<lfloor>binary64 (real n * binary64 0.95)\<rfloor> = int (n * 95 div 100)"
proof -
  define q where "q = n * 95 div 100"
  define r where "r = n * 95 mod 100"
  have qr: "n * 95 = 100 * q + r"
    using mult_div_mod_eq [of 100 "n * 95"] by (simp only: q_def r_def)
  have r: "r < 100"
    unfolding r_def by (rule mod_less_divisor) simp
  have "real (n * 95) = real (100 * q + r)"
    by (simp only: qr)
  then have rq: "real n * 95 = 100 * real q + real r"
    by simp
  have qn: "q < n"
    using assms(1) qr by linarith
  have x: "real n * binary64 0.95 = real q + real r / 100 - real n / 22517998136852480"
    unfolding lit_095 using rq by (simp add: field_simps)
  have n32: "real n < 4294967296"
    using assms(2) by (rule nat_bound_32)
  have "q < 2 ^ 32"
    using qn assms(2) by (rule less_trans)
  then have q32: "int q < 2 ^ 32"
    by (rule nat_bound_32)
  show ?thesis
  proof (cases "r = 0")
    case True
    with qr have "int (n * 95) = int (100 * q)"
      by simp
    then have "int n * 95 = 100 * int q"
      by simp
    then have q19: "int q = 19 * (int n - int q)"
      by simp
    from True rq have nq: "real n = 20 * real q / 19"
      by simp
    have q0: "0 < int q"
      using assms(1) qr True by linarith
    have np: "\<forall>s\<le>52. int q * 2 ^ s \<noteq> 2 ^ 52"
    proof (intro allI impI notI)
      fix s :: nat
      assume "int q * 2 ^ s = 2 ^ 52"
      then have "19 * ((int n - int q) * 2 ^ s) = (2::int) ^ 52"
        by (subst (asm) q19) (simp only: mult.assoc)
      then have "(19::int) dvd 2 ^ 52"
        by (metis dvd_triv_left)
      then show False
        by simp
    qed
    have lo: "real_of_int (int q) - real_of_int (int q) / 2 ^ 54 < real n * binary64 0.95"
    proof -
      have "0 < real q"
        using q0 by simp
      then have "real q / 2 ^ 54 > real q * (20 / 19) / 22517998136852480"
        by simp
      then show ?thesis
        unfolding x by (simp add: True nq)
    qed
    have hi: "real n * binary64 0.95 \<le> real_of_int (int q)"
      unfolding x by (simp add: True)
    have "binary64 (real n * binary64 0.95) = of_int (int q)"
      using q0 q32 np lo hi by (rule floor_near_int)
    then show ?thesis
      by (simp add: q_def)
  next
    case False
    then have r1: "1 \<le> real r"
      by simp
    have r99: "real r \<le> 99"
      using r by simp
    have lo: "real_of_int (int q) \<le> real n * binary64 0.95"
      unfolding x using r1 n32 by simp
    have hi: "real n * binary64 0.95 \<le> real_of_int (int q) + 1 - 1 / 2 ^ 20"
      unfolding x using r99 by simp
    have "0 \<le> int q"
      by simp
    then have "\<lfloor>binary64 (real n * binary64 0.95)\<rfloor> = int q"
      using q32 lo hi by (rule floor_between_ints)
    then show ?thesis
      by (simp only: q_def)
  qed
qed

lemma index_099:
  assumes "0 < n" and "n < 2 ^ 32"
  shows "\<lfloor>binary64 (real n * binary64 0.99)\<rfloor> = int (n * 99 div 100)"
proof -
  define q where "q = n * 99 div 100"
  define r where "r = n * 99 mod 100"
  have qr: "n * 99 = 100 * q + r"
    using mult_div_mod_eq [of 100 "n * 99"] by (simp only: q_def r_def)
  have r: "r < 100"
    unfolding r_def by (rule mod_less_divisor) simp
  have "real (n * 99) = real (100 * q + r)"
    by (simp only: qr)
  then have rq: "real n * 99 = 100 * real q + real r"
    by simp
  have qn: "q < n"
    using assms(1) qr by linarith
  have x: "real n * binary64 0.99 = real q + real r / 100 - real n / 112589990684262400"
    unfolding lit_099 using rq by (simp add: field_simps)
  have n32: "real n < 4294967296"
    using assms(2) by (rule nat_bound_32)
  have "q < 2 ^ 32"
    using qn assms(2) by (rule less_trans)
  then have q32: "int q < 2 ^ 32"
    by (rule nat_bound_32)
  show ?thesis
  proof (cases "r = 0")
    case True
    with qr have "int (n * 99) = int (100 * q)"
      by simp
    then have "int n * 99 = 100 * int q"
      by simp
    then have q99: "int q = 99 * (int n - int q)"
      by simp
    from True rq have nq: "real n = 100 * real q / 99"
      by simp
    have q0: "0 < int q"
      using assms(1) qr True by linarith
    have np: "\<forall>s\<le>52. int q * 2 ^ s \<noteq> 2 ^ 52"
    proof (intro allI impI notI)
      fix s :: nat
      assume "int q * 2 ^ s = 2 ^ 52"
      then have "99 * ((int n - int q) * 2 ^ s) = (2::int) ^ 52"
        by (subst (asm) q99) (simp only: mult.assoc)
      then have "(99::int) dvd 2 ^ 52"
        by (metis dvd_triv_left)
      then show False
        by simp
    qed
    have lo: "real_of_int (int q) - real_of_int (int q) / 2 ^ 54 < real n * binary64 0.99"
    proof -
      have "0 < real q"
        using q0 by simp
      then have "real q / 2 ^ 54 > real q * (100 / 99) / 112589990684262400"
        by simp
      then show ?thesis
        unfolding x by (simp add: True nq)
    qed
    have hi: "real n * binary64 0.99 \<le> real_of_int (int q)"
      unfolding x by (simp add: True)
    have "binary64 (real n * binary64 0.99) = of_int (int q)"
      using q0 q32 np lo hi by (rule floor_near_int)
    then show ?thesis
      by (simp add: q_def)
  next
    case False
    then have r1: "1 \<le> real r"
      by simp
    have r99: "real r \<le> 99"
      using r by simp
    have lo: "real_of_int (int q) \<le> real n * binary64 0.99"
      unfolding x using r1 n32 by simp
    have hi: "real n * binary64 0.99 \<le> real_of_int (int q) + 1 - 1 / 2 ^ 20"
      unfolding x using r99 by simp
    have "0 \<le> int q"
      by simp
    then have "\<lfloor>binary64 (real n * binary64 0.99)\<rfloor> = int q"
      using q32 lo hi by (rule floor_between_ints)
    then show ?thesis
      by (simp only: q_def)
  qed
qed

lemma index_half:
  assumes "n < 2 ^ 32"
  shows "\<lfloor>binary64 (real n / 2)\<rfloor> = int (n div 2)"
proof (cases "n = 0")
  case True
  then show ?thesis
    by (simp add: binary64_zero)
next
  case False
  have "int n < 2 ^ 32"
    using assms by (rule nat_bound_32)
  then have "binary64 (of_int (int n) / 2 ^ 1) = of_int (int n) / 2 ^ 1"
    using False by (intro double_dyadic) simp_all
  then have e: "binary64 (real n / 2) = real n / 2"
    by simp
  show ?thesis
    unfolding e using floor_divide_of_nat_eq [of n 2, where ?'a = real] by simp
qed

section \<open>Properties of the metrics history\<close>

lemma slice_from_end_drop: "slice_from_end k xs = drop (length xs - k) xs"
  by (simp add: slice_from_end_def)

lemma length_append_snapshot: "length (append_snapshot prev s) = min (length prev) 99 + 1"
  by (simp add: append_snapshot_def slice_from_end_drop min_def)

lemma foldl_append_snapshot:
  "length acc \<le> 100 \<Longrightarrow> foldl append_snapshot acc xs = slice_from_end 100 (acc @ xs)"
proof (induction xs arbitrary: acc)
  case Nil
  then show ?case by (simp add: slice_from_end_def)
next
  case (Cons x xs)
  have len: "length (append_snapshot acc x) \<le> 100"
    by (simp add: length_append_snapshot)
  have "slice_from_end 100 (append_snapshot acc x @ xs) = slice_from_end 100 (acc @ x # xs)"
  proof (cases "length acc = 100")
    case True
    then obtain a acc' where acc: "acc = a # acc'"
      by (cases acc) auto
    with True have "length acc' = 99"
      by simp
    then show ?thesis
      by (simp add: acc append_snapshot_def slice_from_end_drop)
  next
    case False
    with Cons.prems have "length acc \<le> 99"
      by simp
    then show ?thesis
      by (simp add: append_snapshot_def slice_from_end_drop)
  qed
  with Cons.IH [OF len] show ?case by simp
qed

lemma append_all_eq: "append_all xs = slice_from_end 100 xs"
  using foldl_append_snapshot [of "[]" xs] by (simp add: append_all_def)

text \<open>
  The handler of the page changes the history only by one append, on a stats message that
  has a payload.
\<close>

lemma onMessage_history:
  "metricsHistory (onMessage t m st) =
     (case m of
        Some d \<Rightarrow>
          (case msg_data d of
             Some p \<Rightarrow>
               if msg_type d = ''stats''
               then append_snapshot (metricsHistory st) (make_snapshot t p)
               else metricsHistory st
           | None \<Rightarrow> metricsHistory st)
      | None \<Rightarrow> metricsHistory st)"
  by (simp add: onMessage_def split: option.splits)

text \<open>
  C2. The history never holds more than 100 snapshots: one append to any history leaves at
  most 100, with the new snapshot last and before it the most recent 99 of the previous
  ones in their order. After any sequence of appends to the empty history the history is
  the last 100 snapshots appended, in insertion order, so only the oldest are evicted.
  After 150 appends the size is exactly 100 and the oldest retained snapshot is the 51st
  one appended (index 50).
\<close>

theorem history_bounded_fifo:
  "length (append_snapshot prev s) \<le> 100
   \<and> append_snapshot prev s = drop (length prev - 99) prev @ [s]
   \<and> length (append_all xs) = min (length xs) 100
   \<and> append_all xs = drop (length xs - 100) xs
   \<and> (length xs = 150 \<longrightarrow> length (append_all xs) = 100 \<and> hd (append_all xs) = xs ! 50)"
proof -
  have a: "length (append_snapshot prev s) \<le> 100"
    by (simp add: length_append_snapshot)
  have b: "append_snapshot prev s = drop (length prev - 99) prev @ [s]"
    by (simp add: append_snapshot_def slice_from_end_drop)
  have d: "append_all xs = drop (length xs - 100) xs"
    by (simp add: append_all_eq slice_from_end_drop)
  have c: "length (append_all xs) = min (length xs) 100"
    by (simp add: d min_def)
  have e: "length xs = 150 \<longrightarrow> length (append_all xs) = 100 \<and> hd (append_all xs) = xs ! 50"
    by (simp add: d hd_drop_conv_nth)
  from a b c d e show ?thesis by blast
qed

theorem history_bounded_fifo_witness:
  "length (map stamp [0..<150]) = 150
   \<and> length (append_all (map stamp [0..<150])) = 100
   \<and> ms_timestamp (hd (append_all (map stamp [0..<150]))) = replicate 50 (CHR ''t'')"
proof -
  have len: "length (map stamp [0..<150]) = 150"
    by simp
  have nth: "map stamp [0..<150] ! 50 = stamp 50"
    by simp
  have "length (append_all (map stamp [0..<150])) = 100
        \<and> hd (append_all (map stamp [0..<150])) = map stamp [0..<150] ! 50"
    using history_bounded_fifo [of "[]" "stamp 0" "map stamp [0..<150]"] len by blast
  then show ?thesis
    unfolding nth by (simp add: stamp_def make_snapshot_def)
qed

section \<open>Properties of calculateStats\<close>

lemma abs_less_bounds: "\<bar>v\<bar> < (B::real) \<Longrightarrow> \<not> B \<le> v \<and> \<not> v \<le> - B"
  by linarith

lemma to_number_eval:
  assumes "binary64 x = v" and "\<bar>v\<bar> < 2 ^ 1024"
  shows "to_number x = Number v"
  using abs_less_bounds [OF assms(2)] assms(1) by (simp only: to_number_def Let_def if_False)

lemma to_number_int:
  assumes "0 \<le> q" and "q < 2 ^ 53"
  shows "to_number (of_int q) = Number (of_int q)"
proof -
  have "real_of_int q < real_of_int (2 ^ 53)"
    using assms(2) by (simp only: of_int_less_iff)
  then have "\<bar>real_of_int q\<bar> < 2 ^ 1024"
    using assms(1) by simp
  with double_int [OF assms] show ?thesis
    by (rule to_number_eval)
qed

lemma exact_from_sum:
  "exact_from acc xs \<Longrightarrow>
     foldl (\<lambda>a b. js_add a (Number b)) (Number acc) xs = Number (acc + sum_list xs)"
  by (induction xs arbitrary: acc) (simp_all add: add.assoc)

lemma sum_list_insort: "sum_list (insort x xs) = x + sum_list (xs :: real list)"
  by (induction xs) simp_all

lemma sum_list_sort: "sum_list (sort xs) = sum_list (xs :: real list)"
  by (induction xs) (simp_all add: sum_list_insort)

lemma sorted_first_Min: "sorted ys \<Longrightarrow> ys \<noteq> [] \<Longrightarrow> ys ! 0 = Min (set (ys :: real list))"
  by (cases ys) (auto intro!: Min_eqI [symmetric])

lemma sorted_last_Max: "sorted ys \<Longrightarrow> ys \<noteq> [] \<Longrightarrow> ys ! (length ys - 1) = Max (set (ys :: real list))"
proof -
  assume s: "sorted ys" and ne: "ys \<noteq> []"
  have "\<forall>y\<in>set ys. y \<le> ys ! (length ys - 1)"
  proof
    fix y assume "y \<in> set ys"
    then obtain i where "i < length ys" "ys ! i = y"
      by (auto simp: in_set_conv_nth)
    with s ne show "y \<le> ys ! (length ys - 1)"
      using sorted_nth_mono [of ys i "length ys - 1"] by auto
  qed
  moreover have "ys ! (length ys - 1) \<in> set ys"
    using ne by simp
  ultimately show ?thesis
    by (auto intro!: Max_eqI [symmetric])
qed

lemma percent_less: "0 < n \<Longrightarrow> k < 100 \<Longrightarrow> n * k div 100 < (n::nat)"
  by (simp add: less_mult_imp_div_less)

lemma at_index_nat: "k < length xs \<Longrightarrow> at_index xs (int k) = Number (xs ! k)"
  by (simp add: at_index_def)

text \<open>
  C3, amended. For every non-empty array of samples (an array has fewer than \<open>2^32\<close>
  elements) the function sorts ascending and returns the first and the last element of the
  sorted array as minimum and maximum (they are the least and the greatest sample), as
  median, p95 and p99 the elements of the sorted array at the indices \<open>floor(n/2)\<close>,
  \<open>floor(n*0.95)\<close> and \<open>floor(n*0.99)\<close>, with no interpolation, and as mean the
  quotient by \<open>n\<close>, rounded to a double, of the sum from the left of the sorted samples,
  each addition rounded to a double. That is the arithmetic mean up to rounding, and the
  arithmetic mean itself when no addition rounds and the quotient is a double.
\<close>

theorem calculateStats_nonempty:
  assumes "latencies \<noteq> []" and "length latencies < 2 ^ 32"
  shows "calculateStats latencies =
           Inr \<lparr> min_value = Number (sort latencies ! 0),
                 max_value = Number (sort latencies ! (length latencies - 1)),
                 mean = js_div (float_sum (sort latencies)) (Number (real (length latencies))),
                 median = Number (sort latencies ! (length latencies div 2)),
                 p95 = Number (sort latencies ! (length latencies * 95 div 100)),
                 p99 = Number (sort latencies ! (length latencies * 99 div 100)) \<rparr>
         \<and> sorted (sort latencies)
         \<and> sort latencies ! 0 = Min (set latencies)
         \<and> sort latencies ! (length latencies - 1) = Max (set latencies)
         \<and> (exact_from 0 (sort latencies)
              \<and> to_number (sum_list latencies / real (length latencies))
                  = Number (sum_list latencies / real (length latencies))
             \<longrightarrow> js_div (float_sum (sort latencies)) (Number (real (length latencies)))
                  = Number (sum_list latencies / real (length latencies)))"
proof -
  let ?s = "sort latencies"
  let ?n = "length latencies"
  have n: "0 < ?n"
    using assms(1) by simp
  have len: "length ?s = ?n"
    by simp
  have ne: "?s \<noteq> []"
    using n len by (metis length_greater_0_conv)
  have i50: "\<lfloor>binary64 (real ?n / 2)\<rfloor> = int (?n div 2)"
    using assms(2) by (rule index_half)
  have i95: "\<lfloor>binary64 (real ?n * binary64 0.95)\<rfloor> = int (?n * 95 div 100)"
    using n assms(2) by (rule index_095)
  have i99: "\<lfloor>binary64 (real ?n * binary64 0.99)\<rfloor> = int (?n * 99 div 100)"
    using n assms(2) by (rule index_099)
  have l50: "?n div 2 < length ?s"
    unfolding len using n by simp
  have l95: "?n * 95 div 100 < length ?s"
    unfolding len using n by (rule percent_less) simp
  have l99: "?n * 99 div 100 < length ?s"
    unfolding len using n by (rule percent_less) simp
  have f_min: "at_index ?s 0 = Number (?s ! 0)"
    using at_index_nat [of 0 ?s] n by simp
  have f_max: "at_index ?s (int ?n - 1) = Number (?s ! (?n - 1))"
    using at_index_nat [of "?n - 1" ?s] n by (simp add: of_nat_diff)
  have f_median: "at_index ?s \<lfloor>binary64 (real ?n / 2)\<rfloor> = Number (?s ! (?n div 2))"
    unfolding i50 using l50 by (rule at_index_nat)
  have f_p95: "at_index ?s \<lfloor>binary64 (real ?n * binary64 0.95)\<rfloor>
               = Number (?s ! (?n * 95 div 100))"
    unfolding i95 using l95 by (rule at_index_nat)
  have f_p99: "at_index ?s \<lfloor>binary64 (real ?n * binary64 0.99)\<rfloor>
               = Number (?s ! (?n * 99 div 100))"
    unfolding i99 using l99 by (rule at_index_nat)
  have a: "calculateStats latencies =
           Inr \<lparr> min_value = Number (?s ! 0),
                 max_value = Number (?s ! (?n - 1)),
                 mean = js_div (float_sum ?s) (Number (real ?n)),
                 median = Number (?s ! (?n div 2)),
                 p95 = Number (?s ! (?n * 95 div 100)),
                 p99 = Number (?s ! (?n * 99 div 100)) \<rparr>"
    unfolding calculateStats_def Let_def len
    by (simp only: f_min f_max f_median f_p95 f_p99)
  have b: "?s ! 0 = Min (set latencies)"
    using sorted_first_Min [of ?s] ne by simp
  have c: "?s ! (?n - 1) = Max (set latencies)"
    using sorted_last_Max [of ?s] ne by simp
  have d: "js_div (float_sum ?s) (Number (real ?n)) = Number (sum_list latencies / real ?n)"
    if "exact_from 0 ?s"
      and "to_number (sum_list latencies / real ?n) = Number (sum_list latencies / real ?n)"
  proof -
    have "float_sum ?s = Number (sum_list latencies)"
      using exact_from_sum [OF that(1)] by (simp add: float_sum_def sum_list_sort)
    then show ?thesis
      using n that(2) by simp
  qed
  from a b c d show ?thesis
    by simp
qed

text \<open>
  The doubles of the literals \<open>0.3\<close>, \<open>0.35\<close>, \<open>0.4\<close>, \<open>0.9\<close>, \<open>1.2\<close> and \<open>0.63\<close>, the
  five rounded additions of the sum from 0, and the rounded quotient by 5.
\<close>

lemma lit_03: "binary64 0.3 = 5404319552844595 / 18014398509481984"
  using binary64_eval [of "0.3" 54 0] by (simp add: round_even_def)

lemma lit_035: "binary64 0.35 = 3152519739159347 / 9007199254740992"
  using binary64_eval [of "0.35" 54 0] by (simp add: round_even_def)

lemma lit_04: "binary64 0.4 = 3602879701896397 / 9007199254740992"
  using binary64_eval [of "0.4" 54 0] by (simp add: round_even_def)

lemma lit_09: "binary64 0.9 = 8106479329266893 / 9007199254740992"
  using binary64_eval [of "0.9" 53 0] by (simp add: round_even_def)

lemma lit_12: "binary64 1.2 = 5404319552844595 / 4503599627370496"
  using binary64_eval [of "1.2" 52 0] by (simp add: round_even_def)

lemma lit_063: "binary64 0.63 = 5674535530486825 / 9007199254740992"
  using binary64_eval [of "0.63" 53 0] by (simp add: round_even_def)

lemma example_sum_1: "binary64 (0 + 5404319552844595 / 18014398509481984) = 5404319552844595 / 18014398509481984"
  using binary64_eval [of "0 + 5404319552844595 / 18014398509481984" 54 0] by (simp add: round_even_def)

lemma example_sum_2: "binary64 (5404319552844595 / 18014398509481984 + 3152519739159347 / 9007199254740992) = 1463669878895411 / 2251799813685248"
  using binary64_eval [of "5404319552844595 / 18014398509481984 + 3152519739159347 / 9007199254740992" 53 0] by (simp add: round_even_def)

lemma example_sum_3: "binary64 (1463669878895411 / 2251799813685248 + 3602879701896397 / 9007199254740992) = 1182194902184755 / 1125899906842624"
  using binary64_eval [of "1463669878895411 / 2251799813685248 + 3602879701896397 / 9007199254740992" 52 0] by (simp add: round_even_def)

lemma example_sum_4: "binary64 (1182194902184755 / 1125899906842624 + 8106479329266893 / 9007199254740992) = 4391009636686233 / 2251799813685248"
  using binary64_eval [of "1182194902184755 / 1125899906842624 + 8106479329266893 / 9007199254740992" 52 0] by (simp add: round_even_def)

lemma example_sum_5: "binary64 (4391009636686233 / 2251799813685248 + 5404319552844595 / 4503599627370496) = 3546584706554265 / 1125899906842624"
  using binary64_eval [of "4391009636686233 / 2251799813685248 + 5404319552844595 / 4503599627370496" 51 0] by (simp add: round_even_def)

lemma example_quotient: "binary64 (3546584706554265 / 1125899906842624 / 5) = 709316941310853 / 1125899906842624"
  using binary64_eval [of "3546584706554265 / 1125899906842624 / 5" 53 0] by (simp add: round_even_def)

lemma example_samples:
  "map binary64 [0.3, 0.35, 0.4, 0.9, 1.2] = [5404319552844595 / 18014398509481984, 3152519739159347 / 9007199254740992, 3602879701896397 / 9007199254740992, 8106479329266893 / 9007199254740992, 5404319552844595 / 4503599627370496]"
  by (simp only: list.map lit_03 lit_035 lit_04 lit_09 lit_12)

lemma example_sorted: "sort ([5404319552844595 / 18014398509481984, 3152519739159347 / 9007199254740992, 3602879701896397 / 9007199254740992, 8106479329266893 / 9007199254740992, 5404319552844595 / 4503599627370496] :: real list) = [5404319552844595 / 18014398509481984, 3152519739159347 / 9007199254740992, 3602879701896397 / 9007199254740992, 8106479329266893 / 9007199254740992, 5404319552844595 / 4503599627370496]"
  by simp

lemma example_float_sum: "float_sum [5404319552844595 / 18014398509481984, 3152519739159347 / 9007199254740992, 3602879701896397 / 9007199254740992, 8106479329266893 / 9007199254740992, 5404319552844595 / 4503599627370496] = Number (3546584706554265 / 1125899906842624)"
proof -
  have b: "\<bar>x\<bar> < 2 ^ 1024" if "\<bar>x\<bar> < 4" for x :: real
    using that by simp
  have s1: "to_number (0 + (5404319552844595 / 18014398509481984)) = Number (5404319552844595 / 18014398509481984)"
    using example_sum_1 by (rule to_number_eval) simp
  have s2: "to_number (5404319552844595 / 18014398509481984 + (3152519739159347 / 9007199254740992)) = Number (1463669878895411 / 2251799813685248)"
    using example_sum_2 by (rule to_number_eval) simp
  have s3: "to_number (1463669878895411 / 2251799813685248 + (3602879701896397 / 9007199254740992)) = Number (1182194902184755 / 1125899906842624)"
    using example_sum_3 by (rule to_number_eval) simp
  have s4: "to_number (1182194902184755 / 1125899906842624 + (8106479329266893 / 9007199254740992)) = Number (4391009636686233 / 2251799813685248)"
    using example_sum_4 by (rule to_number_eval) simp
  have s5: "to_number (4391009636686233 / 2251799813685248 + (5404319552844595 / 4503599627370496)) = Number (3546584706554265 / 1125899906842624)"
    using example_sum_5 by (rule to_number_eval) simp
  show ?thesis
    by (simp only: float_sum_def foldl.simps js_add.simps s1 s2 s3 s4 s5)
qed

lemma example_mean: "js_div (float_sum [5404319552844595 / 18014398509481984, 3152519739159347 / 9007199254740992, 3602879701896397 / 9007199254740992, 8106479329266893 / 9007199254740992, 5404319552844595 / 4503599627370496]) (Number (real (length [5404319552844595 / 18014398509481984, 3152519739159347 / 9007199254740992, 3602879701896397 / 9007199254740992, 8106479329266893 / 9007199254740992, 5404319552844595 / 4503599627370496]))) = Number (709316941310853 / 1125899906842624)"
proof -
  have "to_number (3546584706554265 / 1125899906842624 / 5) = Number (709316941310853 / 1125899906842624)"
    using example_quotient by (rule to_number_eval) simp
  then show ?thesis
    unfolding example_float_sum by simp
qed

text \<open>
  C3, as stated: the samples \<open>[0.3, 0.35, 0.4, 0.9, 1.2]\<close> give the mean 0.63. The
  function returns another double.
\<close>

theorem calculateStats_mean_counterexample:
  "calculateStats (map binary64 [0.3, 0.35, 0.4, 0.9, 1.2]) \<noteq>
     Inr \<lparr> min_value = Number (binary64 0.3), max_value = Number (binary64 1.2),
           mean = Number (binary64 0.63), median = Number (binary64 0.4),
           p95 = Number (binary64 1.2), p99 = Number (binary64 1.2) \<rparr>"
proof -
  have "mean (projr (calculateStats [5404319552844595 / 18014398509481984, 3152519739159347 / 9007199254740992, 3602879701896397 / 9007199254740992, 8106479329266893 / 9007199254740992, 5404319552844595 / 4503599627370496])) = Number (709316941310853 / 1125899906842624)"
    using example_mean by (simp add: calculateStats_def Let_def example_sorted)
  moreover have "Number (709316941310853 / 1125899906842624) \<noteq> Number (binary64 0.63)"
    unfolding lit_063 by simp
  ultimately show ?thesis
    unfolding example_samples by auto
qed

text \<open>
  The samples \<open>[0.3, 0.35, 0.4, 0.9, 1.2]\<close> give min 0.3, max 1.2, median 0.4 and
  p95 = p99 = 1.2, and the mean \<open>709316941310853 / 2^50\<close>, printed
  \<open>0.6299999999999999\<close>, the double next below the double of 0.63. The samples
  \<open>[3, 1, 2]\<close> add up without rounding and have the mean 2.
\<close>

theorem calculateStats_nonempty_witness:
  "map binary64 [0.3, 0.35, 0.4, 0.9, 1.2] \<noteq> []
   \<and> length (map binary64 [0.3, 0.35, 0.4, 0.9, 1.2]) < (2::nat) ^ 32
   \<and> calculateStats (map binary64 [0.3, 0.35, 0.4, 0.9, 1.2]) =
       Inr \<lparr> min_value = Number (binary64 0.3), max_value = Number (binary64 1.2),
             mean = Number (709316941310853 / 1125899906842624),
             median = Number (binary64 0.4), p95 = Number (binary64 1.2),
             p99 = Number (binary64 1.2) \<rparr>
   \<and> 709316941310853 / 1125899906842624 = binary64 0.63 - 1 / 2 ^ 53
   \<and> exact_from 0 (sort [3, 1, 2])
   \<and> to_number (sum_list [3, 1, 2] / real (length [3, 1, 2 :: real])) = Number 2
   \<and> calculateStats [3, 1, 2] =
       Inr \<lparr> min_value = Number 1, max_value = Number 3, mean = Number 2,
             median = Number 2, p95 = Number 3, p99 = Number 3 \<rparr>"
proof -
  have ne: "[5404319552844595 / 18014398509481984, 3152519739159347 / 9007199254740992, 3602879701896397 / 9007199254740992, 8106479329266893 / 9007199254740992, 5404319552844595 / 4503599627370496] \<noteq> []" and len: "length [5404319552844595 / 18014398509481984, 3152519739159347 / 9007199254740992, 3602879701896397 / 9007199254740992, 8106479329266893 / 9007199254740992, 5404319552844595 / 4503599627370496] < (2::nat) ^ 32"
    by simp_all
  have ex: "calculateStats [5404319552844595 / 18014398509481984, 3152519739159347 / 9007199254740992, 3602879701896397 / 9007199254740992, 8106479329266893 / 9007199254740992, 5404319552844595 / 4503599627370496] =
       Inr \<lparr> min_value = Number (5404319552844595 / 18014398509481984), max_value = Number (5404319552844595 / 4503599627370496),
             mean = Number (709316941310853 / 1125899906842624),
             median = Number (3602879701896397 / 9007199254740992), p95 = Number (5404319552844595 / 4503599627370496),
             p99 = Number (5404319552844595 / 4503599627370496) \<rparr>"
    using calculateStats_nonempty [OF ne len] unfolding example_mean example_sorted by simp
  have m: "709316941310853 / 1125899906842624 = binary64 0.63 - 1 / 2 ^ 53"
    unfolding lit_063 by simp
  have t1: "to_number 1 = Number 1" and t2: "to_number 2 = Number 2"
    and t3: "to_number 3 = Number 3" and t6: "to_number 6 = Number 6"
    using to_number_int [of 1] to_number_int [of 2] to_number_int [of 3] to_number_int [of 6]
    by simp_all
  have so: "sort [3, 1, 2 :: real] = [1, 2, 3]"
    by simp
  have e1: "exact_from 0 (sort [3, 1, 2])"
    unfolding so by (simp add: t1 t3 t6)
  have e2: "to_number (sum_list [3, 1, 2] / real (length [3, 1, 2 :: real])) = Number 2"
    by (simp add: t2)
  have e2': "to_number (sum_list [3, 1, 2] / real (length [3, 1, 2 :: real]))
             = Number (sum_list [3, 1, 2] / real (length [3, 1, 2 :: real]))"
    by (simp add: t2)
  have ne3: "[3, 1, 2 :: real] \<noteq> []" and len3: "length [3, 1, 2 :: real] < 2 ^ 32"
    by simp_all
  have e3: "calculateStats [3, 1, 2] =
       Inr \<lparr> min_value = Number 1, max_value = Number 3, mean = Number 2,
             median = Number 2, p95 = Number 3, p99 = Number 3 \<rparr>"
  proof -
    from calculateStats_nonempty [OF ne3 len3] e1 e2'
    have "js_div (float_sum (sort [3, 1, 2])) (Number (real (length [3, 1, 2 :: real])))
          = Number (sum_list [3, 1, 2] / real (length [3, 1, 2 :: real]))"
      by blast
    with calculateStats_nonempty [OF ne3 len3] show ?thesis
      unfolding so by simp
  qed
  from ne len ex m e1 e2 e3 show ?thesis
    unfolding example_samples lit_03 lit_04 lit_12 by blast
qed

text \<open>
  C9, as stated: on the empty sequence the function fails with \<open>InvalidArgument\<close>.
  It does not: it completes normally.
\<close>

theorem calculateStats_empty_counterexample:
  "calculateStats [] \<noteq> Inl InvalidArgument"
  by (simp add: calculateStats_def)

text \<open>
  C9, amended: on the empty sequence the function does not fail; it returns a summary
  whose minimum, maximum, median, p95 and p99 are \<open>undefined\<close> and whose mean is \<open>NaN\<close>.
\<close>

theorem calculateStats_empty:
  "calculateStats [] =
     Inr \<lparr> min_value = Undefined, max_value = Undefined, mean = NaN,
           median = Undefined, p95 = Undefined, p99 = Undefined \<rparr>"
  by (simp add: calculateStats_def at_index_def float_sum_def binary64_zero)

section \<open>Properties of the stream client\<close>

lemmas ws_defs = mounted_def connect_def initial_ws_state_def default_options_def onopen_def
  onclose_def onerror_def reconnect_def disconnect_def clearTimeout_def close_socket_def
  backoffMs_def socket_in_def failing_attempts_def






text \<open>
  C5, evaluated on the code. A hook is mounted with the defaults, its socket opens, and
  the owner calls \<open>disconnect\<close>. The close event of the socket, which \<open>close()\<close>
  causes, then runs \<open>onclose\<close>: the counter is 0, so a reconnection is scheduled after
  3000 ms, and when that timeout fires a new socket is created. The automatic
  reconnection fires after the explicit disconnect.
\<close>

theorem disconnect_then_reconnects:
  "run (default_options u) [SockOpen 0, Disconnect, SockClose 0] (mounted (default_options u)) =
     Some \<lparr> sockets = [CLOSED], wsRef = None, reconnectAttemptsRef = 0,
            reconnectTimeoutRef = Some 1, timers = [(1, 3000)], next_timer = 2,
            isConnected = False, lastError = None, scheduled = [3000] \<rparr>
   \<and> run (default_options u) [SockOpen 0, Disconnect, SockClose 0, TimerFire 1]
          (mounted (default_options u)) =
     Some \<lparr> sockets = [CLOSED, CONNECTING], wsRef = Some 1, reconnectAttemptsRef = 1,
            reconnectTimeoutRef = Some 1, timers = [], next_timer = 2,
            isConnected = False, lastError = None, scheduled = [3000] \<rparr>"
  by (simp add: ws_defs)

text \<open>
  What \<open>disconnect\<close> itself does: the timeout whose handle is in the reference is no
  longer pending, and the referenced socket is closing or closed.
\<close>

lemma disconnect_clears_timer:
  "reconnectTimeoutRef st = Some h \<Longrightarrow> h \<notin> fst ` set (timers (disconnect st))"
  by (auto simp: disconnect_def clearTimeout_def Let_def split: option.splits)

lemma disconnect_closes_channel:
  "wsRef st = Some i \<Longrightarrow> i < length (sockets st) \<Longrightarrow>
     sockets (disconnect st) ! i \<in> {CLOSING, CLOSED} \<and> wsRef (disconnect st) = None"
  by (auto simp: disconnect_def close_socket_def Let_def split: option.splits readyState.splits)

section \<open>Properties of the API client\<close>

lemma generated_keys:
  "map fst (foldl (\<lambda>c s. assign s (generateFallbackPriceData s (env s)) c) [] symbols) = symbols"
  by (simp add: symbols_def)

lemma generated_sources:
  "list_all (\<lambda>p. source (snd p) = ''fallback'')
     (foldl (\<lambda>c s. assign s (generateFallbackPriceData s (env s)) c) [] symbols)"
  by (simp add: symbols_def generateFallbackPriceData_def Let_def)

lemma getFallbackData_full:
  assumes "fallback_cache_ok st"
  shows "map fst (fst (getFallbackData force now env st)) = symbols"
    and "list_all (\<lambda>p. source (snd p) = ''fallback'') (fst (getFallbackData force now env st))"
    and "fallback_cache_ok (snd (getFallbackData force now env st))"
    and "fallbackDataCache (snd (getFallbackData force now env st)) = fst (getFallbackData force now env st)"
  using assms generated_keys [of env] generated_sources [of env]
  by (auto simp: getFallbackData_def fallback_cache_ok_def Let_def)

text \<open>
  The shape of the module state holds initially, and \<open>fetchPrice\<close> keeps it, as
  \<open>getFallbackData\<close> does.
\<close>

lemma initial_fallback_cache_ok: "fallback_cache_ok initial_fallback_state"
  by (simp add: fallback_cache_ok_def initial_fallback_state_def)

lemma fetchPrice_keeps_cache_ok:
  assumes "fallback_cache_ok st" and "fetchPrice production tr now env ticker st = Some (q, st')"
  shows "fallback_cache_ok st'"
proof -
  have "st' = st \<or> st' = snd (getFallbackData False now env st)"
    using assms(2)
    by (auto simp: fetchPrice_def fallback_quote_def
        split: option.splits settled.splits if_splits prod.splits)
  with assms(1) getFallbackData_full(3) [OF assms(1), of False now env] show ?thesis
    by auto
qed

lemma set_latency_Inr:
  "set_latency ps l = Inr qs \<Longrightarrow>
     map fst qs = map fst ps
     \<and> map (\<lambda>p. Some (snd p)) qs = map (\<lambda>p. map_option (\<lambda>q. q\<lparr>latency_us := l\<rparr>) (snd p)) ps
     \<and> list_all (\<lambda>p. latency_us (snd p) = l) qs"
  by (induction ps l arbitrary: qs rule: set_latency.induct) (auto split: sum.splits)

lemma set_latency_Inl:
  "set_latency ps l = Inl e \<Longrightarrow> None \<in> snd ` set ps"
  by (induction ps l rule: set_latency.induct) (auto split: sum.splits)

text \<open>
  C1. The call returns unless the network never answers (the request carries no timeout).
  Whenever it returns, the result is one of two mappings and never a mixture. When the
  status is a success and the body has a \<open>prices\<close> object without a \<open>null\<close> entry, the
  result has the keys of that object in their order, each quote is the quote received with
  only its \<open>latency_us\<close> replaced, and every \<open>latency_us\<close> is the one batch value of the
  body. In every other case (network error, non-success status, a body that is not JSON,
  a missing \<open>prices\<close> member, a \<open>null\<close> entry) the result is what \<open>getFallbackData\<close>
  returns: a mapping whose keys are exactly the five fallback symbols, of quotes with
  source \<open>fallback\<close>.
\<close>

theorem fetchAllPrices_never_partial:
  assumes "fallback_cache_ok st"
  shows "(fetchAllPrices production tr now env st = None \<longleftrightarrow> tr = NoAnswer)
   \<and> (\<forall>res st'. fetchAllPrices production tr now env st = Some (res, st') \<longrightarrow>
        fallback_cache_ok st'
        \<and> ((\<exists>d data prices.
               tr = Answer d True (Some data) \<and> pp_prices data = Some prices
               \<and> map fst res = map fst prices
               \<and> map (\<lambda>p. Some (snd p)) res
                   = map (\<lambda>p. map_option (\<lambda>q. q\<lparr>latency_us := pp_latency_us data\<rparr>) (snd p)) prices
               \<and> list_all (\<lambda>p. latency_us (snd p) = pp_latency_us data) res
               \<and> st' = st)
            \<or> ((tr = NetworkError
                 \<or> (\<exists>d body. tr = Answer d False body)
                 \<or> (\<exists>d. tr = Answer d True None)
                 \<or> (\<exists>d data. tr = Answer d True (Some data)
                       \<and> (pp_prices data = None
                           \<or> (\<exists>prices. pp_prices data = Some prices \<and> None \<in> snd ` set prices))))
                \<and> (res, st') = getFallbackData False now env st
                \<and> map fst res = symbols
                \<and> list_all (\<lambda>p. source (snd p) = ''fallback'') res)))"
proof -
  note fb = getFallbackData_full [OF assms, of False now env]
  have fbr: "\<And>res st'. (res, st') = getFallbackData False now env st \<Longrightarrow>
               fallback_cache_ok st' \<and> map fst res = symbols
               \<and> list_all (\<lambda>p. source (snd p) = ''fallback'') res"
    using fb by (metis fst_conv snd_conv)
  show ?thesis
  proof (cases tr)
    case NetworkError
    then show ?thesis
      using fbr by (auto simp: fetchAllPrices_def fetchAllPrices_request_def)
  next
    case NoAnswer
    then show ?thesis
      by (simp add: fetchAllPrices_def fetchAllPrices_request_def)
  next
    case (Answer d ok body)
    show ?thesis
    proof (cases "ok \<and> body \<noteq> None")
      case False
      with Answer show ?thesis
        using fbr by (cases body) (auto simp: fetchAllPrices_def fetchAllPrices_request_def)
    next
      case True
      then obtain data where body: "body = Some data" and ok: "ok"
        by auto
      show ?thesis
      proof (cases "pp_prices data")
        case None
        with Answer body ok show ?thesis
          using fbr by (auto simp: fetchAllPrices_def fetchAllPrices_request_def)
      next
        case (Some prices)
        show ?thesis
        proof (cases "set_latency prices (pp_latency_us data)")
          case (Inl e)
          then have "None \<in> snd ` set prices"
            by (rule set_latency_Inl)
          with Answer body ok Some Inl show ?thesis
            using fbr by (auto simp: fetchAllPrices_def fetchAllPrices_request_def)
        next
          case (Inr qs)
          from set_latency_Inr [OF Inr] Answer body ok Some Inr assms show ?thesis
            by (auto simp: fetchAllPrices_def fetchAllPrices_request_def)
        qed
      qed
    qed
  qed
qed


text \<open>
  Two runs from the initial module state: a network error gives the five fallback symbols,
  and a live body with two quotes and batch latency 0.42 gives these two quotes, both with
  latency 0.42.
\<close>

theorem fetchAllPrices_never_partial_witness:
  "fallback_cache_ok initial_fallback_state
   \<and> map fst (fst (the (fetchAllPrices False NetworkError 0
         (\<lambda>_. \<lparr> r_volatility = 0, r_volume = 0, r_latency_ns = 0, r_latency_us = 0, iso_now = [] \<rparr>)
         initial_fallback_state)))
       = [''AAPL'', ''MSFT'', ''GOOGL'', ''AMZN'', ''TSLA'']
   \<and> map (\<lambda>p. (fst p, latency_us (snd p)))
         (fst (the (fetchAllPrices False
            (Answer 12 True (Some \<lparr> pp_prices = Some
               [(''AAPL'', Some \<lparr> symbol = ''AAPL'', price = 181.32, bid = 181.14, ask = 181.5,
                                     volume = 1000, timestamp = [], latency_ns = 390,
                                     latency_us = 0, source = ''cache'' \<rparr>),
                (''MSFT'', Some \<lparr> symbol = ''MSFT'', price = 445.1, bid = 444.7, ask = 445.5,
                                     volume = 2000, timestamp = [], latency_ns = 410,
                                     latency_us = 0, source = ''cache'' \<rparr>)],
               pp_latency_us = 0.42 \<rparr>))
            0
            (\<lambda>_. \<lparr> r_volatility = 0, r_volume = 0, r_latency_ns = 0, r_latency_us = 0, iso_now = [] \<rparr>)
            initial_fallback_state)))
       = [(''AAPL'', 0.42), (''MSFT'', 0.42)]"
proof -
  let ?env = "\<lambda>_ :: string. \<lparr> r_volatility = 0, r_volume = 0, r_latency_ns = 0, r_latency_us = 0, iso_now = [] \<rparr>"
  let ?live = "Answer 12 True (Some \<lparr> pp_prices = Some
               [(''AAPL'', Some \<lparr> symbol = ''AAPL'', price = 181.32, bid = 181.14, ask = 181.5,
                                     volume = 1000, timestamp = [], latency_ns = 390,
                                     latency_us = 0, source = ''cache'' \<rparr>),
                (''MSFT'', Some \<lparr> symbol = ''MSFT'', price = 445.1, bid = 444.7, ask = 445.5,
                                     volume = 2000, timestamp = [], latency_ns = 410,
                                     latency_us = 0, source = ''cache'' \<rparr>)],
               pp_latency_us = 0.42 \<rparr>)"
  have ok: "fallback_cache_ok initial_fallback_state"
    by (simp add: fallback_cache_ok_def initial_fallback_state_def)
  obtain res st' where r: "fetchAllPrices False NetworkError 0 ?env initial_fallback_state = Some (res, st')"
    by (simp add: fetchAllPrices_def fetchAllPrices_request_def) (metis surj_pair)
  from fetchAllPrices_never_partial [OF ok, of False NetworkError 0 ?env] r
  have "map fst res = symbols"
    by auto
  with r have x: "map fst (fst (the (fetchAllPrices False NetworkError 0 ?env initial_fallback_state)))
                  = [''AAPL'', ''MSFT'', ''GOOGL'', ''AMZN'', ''TSLA'']"
    by (simp add: symbols_def)
  have y: "map (\<lambda>p. (fst p, latency_us (snd p)))
             (fst (the (fetchAllPrices False ?live 0 ?env initial_fallback_state)))
           = [(''AAPL'', 0.42), (''MSFT'', 0.42)]"
    by (simp add: fetchAllPrices_def fetchAllPrices_request_def)
  from ok x y show ?thesis by blast
qed

text \<open>
  C6, evaluated on the code. The requests of \<open>fetchPrice\<close>, \<open>fetchStats\<close> and
  \<open>healthCheck\<close> carry \<open>AbortSignal.timeout(5000)\<close>; the request of \<open>fetchAllPrices\<close>
  carries no signal. Against a server that never answers the three former calls are
  rejected after the timeout and return their fallback, and \<open>fetchAllPrices\<close> never
  returns.
\<close>

theorem fetchAllPrices_unbounded:
  "rq_signal (fetchAllPrices_request production) = None
   \<and> rq_signal (fetchPrice_request production ticker) = Some 5000
   \<and> rq_signal (fetchStats_request production) = Some 5000
   \<and> rq_signal (healthCheck_request production) = Some 5000
   \<and> fetchAllPrices production NoAnswer now env st = None
   \<and> fetchPrice production NoAnswer now env ticker st = Some (fallback_quote ticker now env st)
   \<and> fetchStats production NoAnswer e = Some (Some (fallback_stats e))
   \<and> healthCheck production NoAnswer = Some False"
  by (simp add: fetchAllPrices_request_def fetchPrice_request_def fetchStats_request_def
      healthCheck_request_def fetchAllPrices_def fetchPrice_def fetchStats_def healthCheck_def)

text \<open>
  Rounding to two decimals keeps a number between two bounds that have two decimals and
  are doubles.
\<close>

lemma toFixed_number_between:
  assumes "0 \<le> a" and "real_of_int a / 100 \<le> x" and "x \<le> real_of_int b / 100"
    and "binary64 (real_of_int a / 100) = real_of_int a / 100"
    and "binary64 (real_of_int b / 100) = real_of_int b / 100"
  shows "real_of_int a / 100 \<le> toFixed_number 2 x \<and> toFixed_number 2 x \<le> real_of_int b / 100"
proof -
  have x0: "0 \<le> x"
    using assms(1,2) by (smt (verit) divide_nonneg_nonneg of_int_0_le_iff)
  let ?f = "\<lfloor>x * 100 + 1 / 2\<rfloor>"
  have lo: "a \<le> ?f"
    using assms(2) by (simp add: le_floor_iff)
  have hi: "?f \<le> b"
  proof -
    have "x * 100 + 1 / 2 < real_of_int b + 1"
      using assms(3) by simp
    then show ?thesis
      by (simp only: floor_le_iff)
  qed
  have f0: "0 \<le> ?f"
    using lo assms(1) by (rule order_trans [rotated])
  have eq: "toFixed_number 2 x = binary64 (real_of_int ?f / 100)"
    using x0 f0 by (simp add: toFixed_number_def fixed_units_def)
  have "real_of_int a / 100 \<le> real_of_int ?f / 100" and "real_of_int ?f / 100 \<le> real_of_int b / 100"
    using lo hi by (simp_all add: divide_right_mono)
  with binary64_between [OF assms(4,5)] show ?thesis
    unfolding eq by blast
qed

text \<open>
  For a base price that is a multiple of one half (as the five base prices are), the
  synthesized price is within 1 of the base price, whatever the base price is.
\<close>

lemma fallback_price_bounds:
  assumes "unit_draw (r_volatility e)" and "base_of ticker = real_of_int c / 2"
    and "200 \<le> c" and "c < 2 ^ 20"
  shows "base_of ticker - 1 \<le> price (generateFallbackPriceData ticker e)
         \<and> price (generateFallbackPriceData ticker e) \<le> base_of ticker + 1"
proof -
  let ?r = "r_volatility e"
  have half: "binary64 (1 / 2) = 1 / 2"
    using double_dyadic [of 1 1] by simp
  have one: "binary64 1 = 1"
    using double_int [of 1] by simp
  have mhalf: "binary64 (- (1 / 2)) = - (1 / 2)" and mone: "binary64 (- 1) = - 1"
    by (simp_all only: binary64_minus half one)
  have lo: "binary64 (real_of_int (c - 2) / 2 ^ 1) = real_of_int (c - 2) / 2 ^ 1"
    using assms(3,4) by (intro double_dyadic) simp_all
  have hi: "binary64 (real_of_int (c + 2) / 2 ^ 1) = real_of_int (c + 2) / 2 ^ 1"
    using assms(3,4) by (intro double_dyadic) simp_all
  have lo': "binary64 (base_of ticker - 1) = base_of ticker - 1"
    using lo by (simp add: assms(2) diff_divide_distrib)
  have hi': "binary64 (base_of ticker + 1) = base_of ticker + 1"
    using hi by (simp add: assms(2) add_divide_distrib)
  have "- (1 / 2) \<le> ?r - 0.5" and "?r - 0.5 \<le> 1 / 2"
    using assms(1) by (simp_all add: unit_draw_def)
  with binary64_between [OF mhalf half]
  have v1: "- (1 / 2) \<le> binary64 (?r - 0.5)" "binary64 (?r - 0.5) \<le> 1 / 2"
    by blast+
  then have "- 1 \<le> binary64 (?r - 0.5) * 2" and "binary64 (?r - 0.5) * 2 \<le> 1"
    by simp_all
  with binary64_between [OF mone one]
  have v: "- 1 \<le> binary64 (binary64 (?r - 0.5) * 2)" "binary64 (binary64 (?r - 0.5) * 2) \<le> 1"
    by blast+
  let ?p = "binary64 (base_of ticker + binary64 (binary64 (?r - 0.5) * 2))"
  have "base_of ticker - 1 \<le> base_of ticker + binary64 (binary64 (?r - 0.5) * 2)"
    and "base_of ticker + binary64 (binary64 (?r - 0.5) * 2) \<le> base_of ticker + 1"
    using v by simp_all
  with binary64_between [OF lo' hi'] have p: "base_of ticker - 1 \<le> ?p" "?p \<le> base_of ticker + 1"
    by blast+
  have a: "real_of_int (50 * c - 100) / 100 = base_of ticker - 1"
    and b: "real_of_int (50 * c + 100) / 100 = base_of ticker + 1"
    by (simp_all add: assms(2) diff_divide_distrib add_divide_distrib)
  have "real_of_int (50 * c - 100) / 100 \<le> toFixed_number 2 ?p
        \<and> toFixed_number 2 ?p \<le> real_of_int (50 * c + 100) / 100"
  proof (rule toFixed_number_between)
    show "0 \<le> 50 * c - 100"
      using assms(3) by simp
    show "real_of_int (50 * c - 100) / 100 \<le> ?p"
      unfolding a by (rule p(1))
    show "?p \<le> real_of_int (50 * c + 100) / 100"
      unfolding b by (rule p(2))
    show "binary64 (real_of_int (50 * c - 100) / 100) = real_of_int (50 * c - 100) / 100"
      unfolding a by (rule lo')
    show "binary64 (real_of_int (50 * c + 100) / 100) = real_of_int (50 * c + 100) / 100"
      unfolding b by (rule hi')
  qed
  then show ?thesis
    unfolding a b by (simp add: generateFallbackPriceData_def Let_def)
qed

lemma fallback_price_AAPL:
  assumes "unit_draw (r_volatility e)"
  shows "source (generateFallbackPriceData ''AAPL'' e) = ''fallback''
         \<and> 180.5 \<le> price (generateFallbackPriceData ''AAPL'' e)
         \<and> price (generateFallbackPriceData ''AAPL'' e) \<le> 182.5"
proof -
  have b: "base_of ''AAPL'' = real_of_int 363 / 2"
    by (simp add: base_of_def basePrice_def)
  have "base_of ''AAPL'' - 1 \<le> price (generateFallbackPriceData ''AAPL'' e)
        \<and> price (generateFallbackPriceData ''AAPL'' e) \<le> base_of ''AAPL'' + 1"
    using assms b by (rule fallback_price_bounds) simp_all
  then show ?thesis
    by (simp add: b) (simp add: generateFallbackPriceData_def Let_def)
qed

text \<open>
  The second half of C7 holds on the code: against an endpoint that is unreachable or
  never answers, \<open>fetchPrice("AAPL")\<close> returns the synthesized quote, whose source is
  \<open>fallback\<close> and whose price lies between 180.5 and 182.5, hence between 179.5 and 183.5.
\<close>

lemma fetchPrice_unreachable_AAPL:
  assumes "unit_draw (r_volatility (env ''AAPL''))" and "tr = NetworkError \<or> tr = NoAnswer"
  shows "\<exists>q st'. fetchPrice production tr now env ''AAPL'' initial_fallback_state
                   = Some (JsonQuote q, st')
           \<and> q = generateFallbackPriceData ''AAPL'' (env ''AAPL'')
           \<and> source q = ''fallback'' \<and> 179.5 \<le> price q \<and> price q \<le> 183.5"
proof -
  have "fetchPrice production tr now env ''AAPL'' initial_fallback_state
        = Some (JsonQuote (generateFallbackPriceData ''AAPL'' (env ''AAPL'')),
                snd (getFallbackData False now env initial_fallback_state))"
    using assms(2)
    by (auto simp: fetchPrice_def fetchPrice_request_def fallback_quote_def getFallbackData_def
        initial_fallback_state_def symbols_def toUpperCase_def upper_char_def Let_def)
  with fallback_price_AAPL [OF assms(1)] show ?thesis
    by auto
qed

text \<open>
  C7, evaluated on the code. With the lowest draw \<open>Math.random() = 0\<close> the price of AAPL
  (base 181.5) is 180.5 and the price of MSFT (base 445) is 444: the perturbation is
  \<open>- 1\<close> for both, an absolute amount that does not grow with the base price. One percent
  below the base of MSFT would be 440.55.
\<close>

theorem fallback_perturbation_absolute:
  "price (generateFallbackPriceData ''AAPL''
            \<lparr> r_volatility = 0, r_volume = 0, r_latency_ns = 0, r_latency_us = 0, iso_now = [] \<rparr>)
     = 181.5 - 1
   \<and> price (generateFallbackPriceData ''MSFT''
            \<lparr> r_volatility = 0, r_volume = 0, r_latency_ns = 0, r_latency_us = 0, iso_now = [] \<rparr>)
     = 445 - 1
   \<and> base_of ''AAPL'' = 181.5 \<and> base_of ''MSFT'' = 445
   \<and> (445 - 1 :: real) \<noteq> 445 - 445 / 100"
proof -
  have d: "binary64 (1 / 2) = 1 / 2" "binary64 1 = 1" "binary64 (361 / 2) = 361 / 2"
    "binary64 444 = 444"
    using double_dyadic [of 1 1] double_int [of 1] double_dyadic [of 361 1] double_int [of 444]
    by simp_all
  have p: "price (generateFallbackPriceData ticker e)
           = toFixed_number 2 (binary64 (base_of ticker + binary64 (binary64 (r_volatility e - 0.5) * 2)))"
    for ticker e
    by (simp add: generateFallbackPriceData_def Let_def)
  show ?thesis
    unfolding p
    by (simp add: base_of_def basePrice_def toFixed_number_def fixed_units_def binary64_minus d)
qed

text \<open>
  C8, as stated: every returned statistics value has
  \<open>total_requests = cache_hits + cache_misses\<close>. On a network error with the draws
  0.5, 0.5 and 0 the synthesized value has 5000 hits, 50 misses and 0 requests in total;
  and a live body with 7 hits, 2 misses and a total of 10 is returned as it is.
\<close>

theorem fetchStats_total_counterexample:
  "fetchStats False NetworkError
     \<lparr> r_hits = 0.5, r_misses = 0.5, r_total = 0, r_rate = 0, r_avg = 0 \<rparr>
     = Some (Some (fallback_stats
         \<lparr> r_hits = 0.5, r_misses = 0.5, r_total = 0, r_rate = 0, r_avg = 0 \<rparr>))
   \<and> cache_hits (fallback_stats
         \<lparr> r_hits = 0.5, r_misses = 0.5, r_total = 0, r_rate = 0, r_avg = 0 \<rparr>) = 5000
   \<and> cache_misses (fallback_stats
         \<lparr> r_hits = 0.5, r_misses = 0.5, r_total = 0, r_rate = 0, r_avg = 0 \<rparr>) = 50
   \<and> total_requests (fallback_stats
         \<lparr> r_hits = 0.5, r_misses = 0.5, r_total = 0, r_rate = 0, r_avg = 0 \<rparr>) = 0
   \<and> (0 :: int) \<noteq> 5000 + 50
   \<and> fetchStats False
        (Answer 20 True (Some (Some \<lparr> cache_hits = 7, cache_misses = 2, total_requests = 10,
                                        hit_rate_percent = 70, avg_latency_us = 0.4 \<rparr>)))
        \<lparr> r_hits = 0.5, r_misses = 0.5, r_total = 0, r_rate = 0, r_avg = 0 \<rparr>
     = Some (Some \<lparr> cache_hits = 7, cache_misses = 2, total_requests = 10,
                    hit_rate_percent = 70, avg_latency_us = 0.4 \<rparr>)
   \<and> (10 :: int) \<noteq> 7 + 2"
proof -
  have d: "binary64 5000 = 5000" "binary64 50 = 50"
    using double_int [of 5000] double_int [of 50] by simp_all
  show ?thesis
    by (simp add: fetchStats_def fetchStats_request_def fallback_stats_def d binary64_zero)
qed

text \<open>
  C8, amended. \<open>fetchStats\<close> always returns. A success status with a JSON body that
  arrives within 5 seconds gives the \<open>cache_stats\<close> member of the body, unchanged, so
  that value satisfies the equation only when the payload of the server does. Every other
  outcome gives the synthesized value, whose \<open>total_requests\<close> is the floor of a draw
  of its own times 10100: another draw for the total changes neither \<open>cache_hits\<close> nor
  \<open>cache_misses\<close>, and other draws for these two do not change the total.
\<close>

theorem fetchStats_values:
  "(tr = Answer d True (Some data) \<and> d < 5000 \<longrightarrow> fetchStats production tr e = Some data)
   \<and> (\<not> (\<exists>d' data'. tr = Answer d' True (Some data') \<and> d' < 5000) \<longrightarrow>
         fetchStats production tr e = Some (Some (fallback_stats e)))
   \<and> total_requests (fallback_stats e) = \<lfloor>binary64 (r_total e * 10100)\<rfloor>
   \<and> cache_hits (fallback_stats (e\<lparr>r_total := t\<rparr>)) = cache_hits (fallback_stats e)
   \<and> cache_misses (fallback_stats (e\<lparr>r_total := t\<rparr>)) = cache_misses (fallback_stats e)
   \<and> total_requests (fallback_stats (e\<lparr>r_hits := h, r_misses := m\<rparr>))
       = total_requests (fallback_stats e)"
proof -
  have a: "tr = Answer d True (Some data) \<and> d < 5000 \<longrightarrow> fetchStats production tr e = Some data"
    by (simp add: fetchStats_def fetchStats_request_def)
  have b: "\<not> (\<exists>d' data'. tr = Answer d' True (Some data') \<and> d' < 5000) \<longrightarrow>
         fetchStats production tr e = Some (Some (fallback_stats e))"
    by (cases tr) (auto simp: fetchStats_def fetchStats_request_def split: option.splits)
  have c: "total_requests (fallback_stats e) = \<lfloor>binary64 (r_total e * 10100)\<rfloor>"
    "cache_hits (fallback_stats (e\<lparr>r_total := t\<rparr>)) = cache_hits (fallback_stats e)"
    "cache_misses (fallback_stats (e\<lparr>r_total := t\<rparr>)) = cache_misses (fallback_stats e)"
    "total_requests (fallback_stats (e\<lparr>r_hits := h, r_misses := m\<rparr>))
       = total_requests (fallback_stats e)"
    by (simp_all add: fallback_stats_def)
  from a b c show ?thesis
    by blast
qed

theorem fetchStats_values_witness:
  "fetchStats False (NoAnswer :: CacheStats option transport)
        \<lparr> r_hits = 0.5, r_misses = 0.5, r_total = 0, r_rate = 0, r_avg = 0 \<rparr>
      = Some (Some (fallback_stats \<lparr> r_hits = 0.5, r_misses = 0.5, r_total = 0, r_rate = 0, r_avg = 0 \<rparr>))
   \<and> fetchStats False
        (Answer 20 True (Some (Some \<lparr> cache_hits = 7, cache_misses = 2, total_requests = 9,
                                        hit_rate_percent = 77.78, avg_latency_us = 0.4 \<rparr>)))
        \<lparr> r_hits = 0.5, r_misses = 0.5, r_total = 0, r_rate = 0, r_avg = 0 \<rparr>
      = Some (Some \<lparr> cache_hits = 7, cache_misses = 2, total_requests = 9,
                     hit_rate_percent = 77.78, avg_latency_us = 0.4 \<rparr>)"
proof -
  let ?e = "\<lparr> r_hits = 0.5, r_misses = 0.5, r_total = 0, r_rate = 0, r_avg = 0 \<rparr>"
  let ?s = "\<lparr> cache_hits = 7, cache_misses = 2, total_requests = 9,
              hit_rate_percent = 77.78, avg_latency_us = 0.4 \<rparr>"
  have x: "fetchStats False (NoAnswer :: CacheStats option transport) ?e = Some (Some (fallback_stats ?e))"
    using fetchStats_values [of NoAnswer 0 None False ?e] by simp
  have y: "fetchStats False (Answer 20 True (Some (Some ?s))) ?e = Some (Some ?s)"
    using fetchStats_values [of "Answer 20 True (Some (Some ?s))" 20 "Some ?s" False ?e] by simp
  from x y show ?thesis by blast
qed

text \<open>
  For each of the five symbols the synthesized price is within 1 of the base price,
  whatever the base price is.
\<close>

lemma fallback_price_within_one:
  assumes "unit_draw (r_volatility e)" and "ticker \<in> set symbols"
  shows "base_of ticker - 1 \<le> price (generateFallbackPriceData ticker e)
         \<and> price (generateFallbackPriceData ticker e) \<le> base_of ticker + 1"
proof -
  from assms(2) consider "ticker = ''AAPL''" | "ticker = ''MSFT''" | "ticker = ''GOOGL''"
    | "ticker = ''AMZN''" | "ticker = ''TSLA''"
    by (auto simp: symbols_def)
  then obtain c :: int where "base_of ticker = real_of_int c / 2" and "200 \<le> c" and "c < 2 ^ 20"
  proof cases
    case 1 then show ?thesis by (intro that [of 363]) (simp_all add: base_of_def basePrice_def)
  next
    case 2 then show ?thesis by (intro that [of 890]) (simp_all add: base_of_def basePrice_def)
  next
    case 3 then show ?thesis by (intro that [of 280]) (simp_all add: base_of_def basePrice_def)
  next
    case 4 then show ?thesis by (intro that [of 392]) (simp_all add: base_of_def basePrice_def)
  next
    case 5 then show ?thesis by (intro that [of 484]) (simp_all add: base_of_def basePrice_def)
  qed
  with assms(1) show ?thesis
    by (rule fallback_price_bounds)
qed

section \<open>Properties of the export\<close>

text \<open>
  C10. For the empty list \<open>benchmarkToCSV\<close> returns the text
  \<open>No benchmark results to export\<close> and \<open>metricsToCSV\<close> returns
  \<open>No metrics data to export\<close>; neither is the header row, and the CSV export of an
  empty list hands this text to the download.
\<close>

theorem empty_export_is_message:
  "benchmarkToCSV exponent_form [] = ''No benchmark results to export''
   \<and> metricsToCSV exponent_form [] = ''No metrics data to export''
   \<and> benchmarkToCSV exponent_form [] \<noteq> join '','' benchmark_headers
   \<and> metricsToCSV exponent_form [] \<noteq> join '','' metrics_headers
   \<and> exportBenchmarkResults_csv exponent_form []
       = (''No benchmark results to export'', ''text/csv'')
   \<and> exportMetricsHistory_csv exponent_form []
       = (''No metrics data to export'', ''text/csv'')"
  by (simp add: benchmarkToCSV_def metricsToCSV_def benchmark_headers_def metrics_headers_def
      exportBenchmarkResults_csv_def exportMetricsHistory_csv_def)

lemma join_cons: "ys \<noteq> [] \<Longrightarrow> join sep (x # ys) = x @ sep @ join sep ys"
  by (cases ys) simp_all

text \<open>
  For a non-empty list, by contrast, the output starts with the header row.
\<close>

lemma nonempty_export_has_header:
  "results \<noteq> [] \<Longrightarrow>
     \<exists>rest. benchmarkToCSV exponent_form results = join '','' benchmark_headers @ newline @ rest"
  "metrics \<noteq> [] \<Longrightarrow>
     \<exists>rest. metricsToCSV exponent_form metrics = join '','' metrics_headers @ newline @ rest"
  by (simp_all add: benchmarkToCSV_def metricsToCSV_def Let_def join_cons)

end
